theory Spec2Isabelle
  imports Complex_Main "HOL-Library.AList"
begin

section \<open>JavaScript values\<close>

text \<open>
  The stores keep plain JavaScript data, and after a restore whatever \<^verbatim>\<open>JSON.parse\<close>
  found in the substrate. A value is therefore a JSON value or \<^verbatim>\<open>undefined\<close>:
  \<open>None\<close> is \<^verbatim>\<open>undefined\<close>, \<open>Some JNull\<close> is \<^verbatim>\<open>null\<close>. A number is the rational
  value of the double (the infinities and NaN, which no JSON text denotes, are left out).
  An object is its list of properties; a read takes the first binding of a name.
  The enumerations of \<^verbatim>\<open>stores.js\<close> are objects of strings, so a state is a string.
\<close>

datatype json =
    JNull
  | JBool bool
  | JNum rat
  | JStr string
  | JArr "json list"
  | JObj "(string \<times> json) list"

type_synonym jsval = "json option"

datatype exn = TypeError | SyntaxError | SecurityError | QuotaExceededError

text \<open>\<^verbatim>\<open>!v\<close> is \<open>\<not> truthy v\<close>.\<close>

fun truthy :: "jsval \<Rightarrow> bool" where
  "truthy None = False"
| "truthy (Some JNull) = False"
| "truthy (Some (JBool b)) = b"
| "truthy (Some (JNum n)) = (n \<noteq> 0)"
| "truthy (Some (JStr s)) = (s \<noteq> [])"
| "truthy (Some (JArr xs)) = True"
| "truthy (Some (JObj ps)) = True"

text \<open>
  \<^verbatim>\<open>v.p\<close> for the property names the code reads (none of them is a built-in property
  of a string, a number or an array): a TypeError on \<^verbatim>\<open>null\<close> and \<^verbatim>\<open>undefined\<close>,
  the property of an object, \<^verbatim>\<open>undefined\<close> on everything else.
\<close>

fun get_prop :: "jsval \<Rightarrow> string \<Rightarrow> exn + jsval" where
  "get_prop None p = Inl TypeError"
| "get_prop (Some JNull) p = Inl TypeError"
| "get_prop (Some (JObj ps)) p = Inr (map_of ps p)"
| "get_prop (Some v) p = Inr None"

fun isArray :: "jsval \<Rightarrow> bool" where
  "isArray (Some (JArr xs)) = True"
| "isArray v = False"

text \<open>
  What \<^verbatim>\<open>JSON.stringify\<close> writes for an object literal and for an array literal whose
  parts may be \<^verbatim>\<open>undefined\<close>: an undefined property is left out, an undefined element
  is written as \<^verbatim>\<open>null\<close>.
\<close>

definition object_of :: "(string \<times> jsval) list \<Rightarrow> json" where
  "object_of ps = JObj (List.map_filter (\<lambda>(k, v). map_option (Pair k) v) ps)"

definition element_of :: "jsval \<Rightarrow> json" where
  "element_of v = (case v of None \<Rightarrow> JNull | Some j \<Rightarrow> j)"

definition array_of :: "jsval list \<Rightarrow> json" where
  "array_of vs = JArr (map element_of vs)"

text \<open>
  A value as the Map, \<^verbatim>\<open>includes\<close> and \<^verbatim>\<open>===\<close> compare it. \<^verbatim>\<open>undefined\<close>, \<^verbatim>\<open>null\<close>,
  a boolean, a number and a string are compared by value; an array and an object are
  the same only when they are the same array or object in memory. So an array or an
  object is held with its address, and two of them are equal exactly when their
  addresses are (an address has one content: the stores never assign to the arrays and
  objects they use as keys and ids). \<open>plain\<close> is the value without its address,
  which is what \<^verbatim>\<open>JSON.stringify\<close> looks at.

  \<open>identify a j\<close> is the value \<^verbatim>\<open>JSON.parse\<close> made of \<open>j\<close>, at the address \<open>a\<close> if it
  had to make an array or an object. Every array and object that \<^verbatim>\<open>JSON.parse\<close>
  makes is a new one.
\<close>

datatype val =
    Undefined
  | Null
  | Boolean bool
  | Number rat
  | Text string
  | Array nat "json list"
  | Object nat "(string \<times> json) list"

fun plain :: "val \<Rightarrow> jsval" where
  "plain Undefined = None"
| "plain Null = Some JNull"
| "plain (Boolean b) = Some (JBool b)"
| "plain (Number n) = Some (JNum n)"
| "plain (Text s) = Some (JStr s)"
| "plain (Array a xs) = Some (JArr xs)"
| "plain (Object a ps) = Some (JObj ps)"

fun identify :: "nat \<Rightarrow> json \<Rightarrow> val" where
  "identify a JNull = Null"
| "identify a (JBool b) = Boolean b"
| "identify a (JNum n) = Number n"
| "identify a (JStr s) = Text s"
| "identify a (JArr xs) = Array a xs"
| "identify a (JObj ps) = Object a ps"


text \<open>The same for a value that may be absent, and for the elements of an array.\<close>

definition identify_value :: "nat \<Rightarrow> jsval \<Rightarrow> val" where
  "identify_value a v = (case v of None \<Rightarrow> Undefined | Some j \<Rightarrow> identify a j)"

fun identify_all :: "nat \<Rightarrow> json list \<Rightarrow> val list" where
  "identify_all a [] = []"
| "identify_all a (x # xs) = identify a x # identify_all (Suc a) xs"

text \<open>
  The parameter pattern \<^verbatim>\<open>([a, b])\<close> of the callbacks: the first two values an iterable
  yields (\<^verbatim>\<open>undefined\<close> when it has fewer), a TypeError on a value that is not iterable.
  A string iterates over its characters.
\<close>

fun first_two :: "json list \<Rightarrow> jsval \<times> jsval" where
  "first_two [] = (None, None)"
| "first_two [a] = (Some a, None)"
| "first_two (a # b # rest) = (Some a, Some b)"

fun destructure :: "json \<Rightarrow> exn + (jsval \<times> jsval)" where
  "destructure (JArr xs) = Inr (first_two xs)"
| "destructure (JStr s) = Inr (first_two (map (\<lambda>c. JStr [c]) s))"
| "destructure v = Inl TypeError"

text \<open>
  Sequencing of statements that may throw: the first exception leaves the block
  (towards the enclosing \<^verbatim>\<open>catch\<close>).
\<close>

definition and_then :: "exn + 'a \<Rightarrow> ('a \<Rightarrow> exn + 'b) \<Rightarrow> exn + 'b" where
  "and_then m f = (case m of Inl e \<Rightarrow> Inl e | Inr x \<Rightarrow> f x)"

text \<open>
  \<^verbatim>\<open>v < n\<close> for a number \<open>n\<close>. On a number, a boolean and \<^verbatim>\<open>null\<close> the comparison is
  arithmetic. On a string, an array or an object the engine first converts the value to
  a number; that conversion is the parameter \<open>ToNumber\<close>. It yields \<open>Inr None\<close> for NaN,
  which is less than nothing, and it throws where the engine does: an object parsed from
  JSON can carry own properties \<^verbatim>\<open>valueOf\<close> and \<^verbatim>\<open>toString\<close> that are not functions,
  and converting it is a TypeError.
\<close>

fun less_number :: "(json \<Rightarrow> exn + rat option) \<Rightarrow> json \<Rightarrow> rat \<Rightarrow> exn + bool" where
  "less_number ToNumber JNull n = Inr (0 < n)"
| "less_number ToNumber (JBool b) n = Inr ((if b then 1 else 0) < n)"
| "less_number ToNumber (JNum x) n = Inr (x < n)"
| "less_number ToNumber v n =
     and_then (ToNumber v) (\<lambda>x. Inr (case x of None \<Rightarrow> False | Some x \<Rightarrow> x < n))"

text \<open>\<^verbatim>\<open>Date.now().toString()\<close>: the decimal digits of a reading of the clock.\<close>

function toString :: "nat \<Rightarrow> string" where
  "toString n = (if n < 10 then [char_of (48 + n)]
                 else toString (n div 10) @ [char_of (48 + n mod 10)])"
  by pat_completeness auto
termination
  by (relation "measure (\<lambda>n. n)") auto

declare toString.simps [simp del]

text \<open>\<^verbatim>\<open>xs.map(f)\<close> with a callback that may throw: the first exception ends the loop.\<close>

fun map_exn :: "('a \<Rightarrow> exn + 'b) \<Rightarrow> 'a list \<Rightarrow> exn + 'b list" where
  "map_exn f [] = Inr []"
| "map_exn f (x # xs) =
     (case f x of
        Inl e \<Rightarrow> Inl e
      | Inr y \<Rightarrow> (case map_exn f xs of Inl e \<Rightarrow> Inl e | Inr ys \<Rightarrow> Inr (y # ys)))"

section \<open>The persistence substrate\<close>

text \<open>
  \<^verbatim>\<open>localStorage\<close> holds strings. The loaders look at a stored string in two ways only:
  \<^verbatim>\<open>!saved\<close> and \<^verbatim>\<open>JSON.parse(saved)\<close>. A stored string is therefore represented by
  what \<^verbatim>\<open>JSON.parse\<close> makes of it: \<open>NotJSON\<close> for a string on which it throws (the
  empty string among them, which the loaders refuse one line earlier, with the same
  result), \<open>JSONText j\<close> for a string it reads as \<open>j\<close>. \<^verbatim>\<open>JSON.stringify(j)\<close> is a string
  that is read back as \<open>j\<close>.

  Every access throws when the browser denies storage (\<open>denied\<close>); a write throws when
  the quota is used up (\<open>full\<close>).
\<close>

datatype stored = NotJSON | JSONText json

record substrate =
  items :: "string \<Rightarrow> stored option"
  denied :: bool
  full :: bool

definition getItem :: "substrate \<Rightarrow> string \<Rightarrow> exn + stored option" where
  "getItem ls k = (if denied ls then Inl SecurityError else Inr (items ls k))"

definition setItem :: "substrate \<Rightarrow> string \<Rightarrow> stored \<Rightarrow> exn + substrate" where
  "setItem ls k v =
     (if denied ls then Inl SecurityError
      else if full ls then Inl QuotaExceededError
      else Inr (ls\<lparr>items := (items ls)(k \<mapsto> v)\<rparr>))"

definition removeItem :: "substrate \<Rightarrow> string \<Rightarrow> exn + substrate" where
  "removeItem ls k =
     (if denied ls then Inl SecurityError
      else Inr (ls\<lparr>items := (items ls)(k := None)\<rparr>))"

definition JSON_parse :: "stored \<Rightarrow> exn + json" where
  "JSON_parse s = (case s of NotJSON \<Rightarrow> Inl SyntaxError | JSONText j \<Rightarrow> Inr j)"

definition JSON_stringify :: "json \<Rightarrow> stored" where
  "JSON_stringify j = JSONText j"

section \<open>The codec (storage.js)\<close>

definition KEY_sessions :: string where "KEY_sessions = ''docsgpt-sessions-v2''"
definition KEY_documents :: string where "KEY_documents = ''docsgpt-documents-v2''"
definition KEY_messages :: string where "KEY_messages = ''docsgpt-messages-v2''"

definition STORAGE_VERSION :: rat where "STORAGE_VERSION = 2"

definition UPLOADED :: json where "UPLOADED = JStr ''UPLOADED''"
definition PARSING :: json where "PARSING = JStr ''PARSING''"
definition PARSE_FAILED :: json where "PARSE_FAILED = JStr ''PARSE_FAILED''"
definition PARSED :: json where "PARSED = JStr ''PARSED''"
definition REQUIRES_REUPLOAD :: json where "REQUIRES_REUPLOAD = JStr ''REQUIRES_REUPLOAD''"

definition INTERRUPTED :: json where
  "INTERRUPTED = JStr ''Parsing interrupted by page reload''"

text \<open>
  A document object. \<open>doc_file\<close> is the property \<^verbatim>\<open>file\<close>, the browser's File (\<open>None\<close> is \<^verbatim>\<open>null\<close>); \<open>ref\<close> is the
  identity of the object, which a pending \<^verbatim>\<open>parseDocument\<close> call holds on to while
  the map may already hold another object under the same key.
\<close>

record File =
  file_name :: string
  file_size :: nat
  file_type :: string

record document =
  docId :: jsval
  state :: jsval
  metadata :: jsval
  doc_file :: "File option"
  parsedArtifactId :: jsval
  parseError :: jsval
  requiresReupload :: bool
  ref :: nat

text \<open>\<^verbatim>\<open>clearSessions\<close>, \<^verbatim>\<open>clearDocuments\<close>, \<^verbatim>\<open>clearMessages\<close>.\<close>

definition clear :: "string \<Rightarrow> substrate \<Rightarrow> substrate" where
  "clear key ls = (case removeItem ls key of Inl e \<Rightarrow> ls | Inr ls' \<Rightarrow> ls')"

definition clearSessions :: "substrate \<Rightarrow> substrate" where
  "clearSessions = clear KEY_sessions"

definition clearDocuments :: "substrate \<Rightarrow> substrate" where
  "clearDocuments = clear KEY_documents"

definition clearMessages :: "substrate \<Rightarrow> substrate" where
  "clearMessages = clear KEY_messages"

subsection \<open>saveDocuments\<close>

definition canonical_metadata :: "jsval \<Rightarrow> exn + json" where
  "canonical_metadata m =
     and_then (get_prop m ''name'') (\<lambda>n.
     and_then (get_prop m ''size'') (\<lambda>s.
     and_then (get_prop m ''type'') (\<lambda>t.
     and_then (get_prop m ''uploadedAt'') (\<lambda>u.
       Inr (object_of [(''name'', n), (''size'', s), (''type'', t), (''uploadedAt'', u)])))))"

definition canonical_doc :: "val \<times> document \<Rightarrow> exn + json" where
  "canonical_doc entry =
     and_then (canonical_metadata (metadata (snd entry))) (\<lambda>m.
       Inr (array_of [plain (fst entry), Some (object_of
         [(''docId'', docId (snd entry)),
          (''state'', state (snd entry)),
          (''metadata'', Some m),
          (''parsedArtifactId'', parsedArtifactId (snd entry)),
          (''parseError'', parseError (snd entry))])]))"

definition saveDocuments_body :: "(val \<times> document) list \<Rightarrow> nat \<Rightarrow> substrate \<Rightarrow> exn + substrate" where
  "saveDocuments_body documents now ls =
     and_then (map_exn canonical_doc documents) (\<lambda>canonicalDocs.
       setItem ls KEY_documents (JSON_stringify (object_of
         [(''version'', Some (JNum STORAGE_VERSION)),
          (''documents'', Some (JArr canonicalDocs)),
          (''timestamp'', Some (JNum (of_nat now)))])))"

definition saveDocuments :: "(val \<times> document) list \<Rightarrow> nat \<Rightarrow> substrate \<Rightarrow> substrate" where
  "saveDocuments documents now ls =
     (case saveDocuments_body documents now ls of Inl e \<Rightarrow> ls | Inr ls' \<Rightarrow> ls')"

subsection \<open>The callback of loadDocuments\<close>

text \<open>\<^verbatim>\<open>doc.p = v\<close> on an object.\<close>

definition set_prop :: "(string \<times> json) list \<Rightarrow> string \<Rightarrow> json \<Rightarrow> (string \<times> json) list" where
  "set_prop ps p v = AList.update p v ps"

text \<open>The two repairs of the callback of \<^verbatim>\<open>data.documents.map\<close>, in the source's order.\<close>

definition downgrade_parsed :: "(string \<times> json) list \<Rightarrow> (string \<times> json) list" where
  "downgrade_parsed doc =
     (if map_of doc ''state'' = Some PARSED \<and> \<not> truthy (map_of doc ''parsedArtifactId'')
      then set_prop (set_prop doc ''state'' UPLOADED) ''parsedArtifactId'' JNull
      else doc)"

definition downgrade_parsing :: "(string \<times> json) list \<Rightarrow> (string \<times> json) list" where
  "downgrade_parsing doc =
     (if map_of doc ''state'' = Some PARSING
      then set_prop (set_prop doc ''state'' PARSE_FAILED) ''parseError'' INTERRUPTED
      else doc)"

text \<open>
  The callback itself: \<open>None\<close> is the \<^verbatim>\<open>null\<close> of an invalid entry, which
  \<^verbatim>\<open>filter(Boolean)\<close> drops. An entry that passes has a truthy \<^verbatim>\<open>doc.docId\<close>, so
  \<open>doc\<close> is an object; the result carries the key and the object's properties.
\<close>

fun repaired :: "jsval \<Rightarrow> jsval \<Rightarrow> (json \<times> (string \<times> json) list) option" where
  "repaired (Some i) (Some (JObj ps)) = Some (i, downgrade_parsing (downgrade_parsed ps))"
| "repaired i d = None"

definition validate_doc :: "json \<Rightarrow> exn + (json \<times> (string \<times> json) list) option" where
  "validate_doc entry =
     and_then (destructure entry) (\<lambda>(id', doc).
       if \<not> truthy id' \<or> \<not> truthy doc then Inr None
       else and_then (get_prop doc ''docId'') (\<lambda>d.
         if \<not> truthy d then Inr None
         else and_then (get_prop doc ''state'') (\<lambda>s.
           if \<not> truthy s then Inr None
           else and_then (get_prop doc ''metadata'') (\<lambda>m.
             if \<not> truthy m then Inr None
             else Inr (repaired id' doc)))))"

subsection \<open>The lines the three loaders share\<close>

text \<open>\<^verbatim>\<open>!data.version || data.version < STORAGE_VERSION\<close>\<close>

fun outdated :: "(json \<Rightarrow> exn + rat option) \<Rightarrow> jsval \<Rightarrow> exn + bool" where
  "outdated ToNumber None = Inr True"
| "outdated ToNumber (Some v) =
     (if \<not> truthy (Some v) then Inr True else less_number ToNumber v STORAGE_VERSION)"

text \<open>
  \<^verbatim>\<open>loadSessions\<close>, \<^verbatim>\<open>loadDocuments\<close> and \<^verbatim>\<open>loadMessages\<close> are the same lines up to the
  key they read and the validation that follows the version check (\<open>validated\<close>):
  read the key, return \<^verbatim>\<open>null\<close> (\<open>None\<close>) when nothing is stored, parse, clear the
  entry and return \<^verbatim>\<open>null\<close> when the version is outdated, validate; and the \<^verbatim>\<open>catch\<close>
  around it all, which returns \<^verbatim>\<open>null\<close>.
\<close>

definition load_parsed ::
  "string \<Rightarrow> (json \<Rightarrow> exn + 'a option) \<Rightarrow> (json \<Rightarrow> exn + rat option) \<Rightarrow> substrate \<Rightarrow> json
     \<Rightarrow> exn + ('a option \<times> substrate)" where
  "load_parsed key validated ToNumber ls data =
     and_then (get_prop (Some data) ''version'') (\<lambda>version.
     and_then (outdated ToNumber version) (\<lambda>old.
       if old then Inr (None, clear key ls)
       else and_then (validated data) (\<lambda>r. Inr (r, ls))))"

fun load_saved ::
  "string \<Rightarrow> (json \<Rightarrow> exn + 'a option) \<Rightarrow> (json \<Rightarrow> exn + rat option) \<Rightarrow> substrate \<Rightarrow> stored option
     \<Rightarrow> exn + ('a option \<times> substrate)" where
  "load_saved key validated ToNumber ls None = Inr (None, ls)"
| "load_saved key validated ToNumber ls (Some text) =
     and_then (JSON_parse text) (load_parsed key validated ToNumber ls)"

definition load_body ::
  "string \<Rightarrow> (json \<Rightarrow> exn + 'a option) \<Rightarrow> (json \<Rightarrow> exn + rat option) \<Rightarrow> substrate
     \<Rightarrow> exn + ('a option \<times> substrate)" where
  "load_body key validated ToNumber ls =
     and_then (getItem ls key) (load_saved key validated ToNumber ls)"

definition load ::
  "string \<Rightarrow> (json \<Rightarrow> exn + 'a option) \<Rightarrow> (json \<Rightarrow> exn + rat option) \<Rightarrow> substrate
     \<Rightarrow> 'a option \<times> substrate" where
  "load key validated ToNumber ls =
     (case load_body key validated ToNumber ls of Inl e \<Rightarrow> (None, ls) | Inr r \<Rightarrow> r)"

text \<open>
  A stored value whose version tag is absent, or is a number below the current version.
\<close>

fun older :: "jsval \<Rightarrow> bool" where
  "older None = True"
| "older (Some (JNum n)) = (n < STORAGE_VERSION)"
| "older (Some v) = False"

definition stale :: "json \<Rightarrow> bool" where
  "stale data = (case get_prop (Some data) ''version'' of Inl e \<Rightarrow> False | Inr v \<Rightarrow> older v)"

subsection \<open>loadDocuments\<close>

record loaded_documents =
  ld_documents :: "(json \<times> (string \<times> json) list) list"
  ld_timestamp :: jsval

fun validated_documents :: "json \<Rightarrow> jsval \<Rightarrow> exn + loaded_documents option" where
  "validated_documents data (Some (JArr entries)) =
     and_then (map_exn validate_doc entries) (\<lambda>validDocs.
     and_then (get_prop (Some data) ''timestamp'') (\<lambda>ts.
       Inr (Some \<lparr>ld_documents = List.map_filter (\<lambda>x. x) validDocs, ld_timestamp = ts\<rparr>)))"
| "validated_documents data docs = Inr None"

definition documents_of :: "json \<Rightarrow> exn + loaded_documents option" where
  "documents_of data = and_then (get_prop (Some data) ''documents'') (validated_documents data)"

definition loadDocuments ::
  "(json \<Rightarrow> exn + rat option) \<Rightarrow> substrate \<Rightarrow> loaded_documents option \<times> substrate" where
  "loadDocuments = load KEY_documents documents_of"

subsection \<open>saveSessions, loadSessions\<close>

text \<open>
  A session object. \<^verbatim>\<open>SessionStore.restore\<close> puts the parsed object itself into the
  map; the store reads and writes these six properties of it and no other, so the
  record holds these. \<open>session_name\<close> and \<open>session_state\<close> are the properties
  \<^verbatim>\<open>name\<close> and \<^verbatim>\<open>state\<close>.
\<close>

record session =
  sessionId :: jsval
  session_name :: jsval
  session_state :: jsval
  activeDocumentIds :: "val list"
  activeDocumentId :: val
  createdAt :: jsval

definition canonical_session :: "val \<times> session \<Rightarrow> json" where
  "canonical_session entry =
     array_of [plain (fst entry), Some (object_of
       [(''sessionId'', sessionId (snd entry)),
        (''name'', session_name (snd entry)),
        (''state'', session_state (snd entry)),
        (''activeDocumentIds'', Some (array_of (map plain (activeDocumentIds (snd entry))))),
        (''createdAt'', createdAt (snd entry))])]"

definition saveSessions_body ::
  "(val \<times> session) list \<Rightarrow> val \<Rightarrow> nat \<Rightarrow> substrate \<Rightarrow> exn + substrate" where
  "saveSessions_body sessions activeSessionId now ls =
     setItem ls KEY_sessions (JSON_stringify (object_of
       [(''version'', Some (JNum STORAGE_VERSION)),
        (''sessions'', Some (JArr (map canonical_session sessions))),
        (''activeSessionId'', plain activeSessionId),
        (''timestamp'', Some (JNum (of_nat now)))]))"

definition saveSessions ::
  "(val \<times> session) list \<Rightarrow> val \<Rightarrow> nat \<Rightarrow> substrate \<Rightarrow> substrate" where
  "saveSessions sessions activeSessionId now ls =
     (case saveSessions_body sessions activeSessionId now ls of Inl e \<Rightarrow> ls | Inr ls' \<Rightarrow> ls')"

text \<open>
  The callback of \<^verbatim>\<open>data.sessions.filter\<close>: \<open>None\<close> for an element that is dropped.
  An element that is kept is represented by the key and the properties of the session
  object that \<^verbatim>\<open>restore\<close> destructures from it again.
\<close>

fun retained :: "jsval \<Rightarrow> jsval \<Rightarrow> (json \<times> (string \<times> json) list) option" where
  "retained (Some i) (Some (JObj ps)) = Some (i, ps)"
| "retained i s = None"

definition validate_session :: "json \<Rightarrow> exn + (json \<times> (string \<times> json) list) option" where
  "validate_session entry =
     and_then (destructure entry) (\<lambda>(id', session).
       if \<not> truthy id' \<or> \<not> truthy session then Inr None
       else and_then (get_prop session ''sessionId'') (\<lambda>i.
         if \<not> truthy i then Inr None
         else and_then (get_prop session ''name'') (\<lambda>n.
           if \<not> truthy n then Inr None
           else and_then (get_prop session ''state'') (\<lambda>s.
             if \<not> truthy s then Inr None
             else and_then (get_prop session ''activeDocumentIds'') (\<lambda>a.
               if \<not> isArray a then Inr None
               else Inr (retained id' session))))))"

record loaded_sessions =
  ls_sessions :: "(json \<times> (string \<times> json) list) list"
  ls_activeSessionId :: jsval
  ls_timestamp :: jsval

fun validated_sessions :: "json \<Rightarrow> jsval \<Rightarrow> exn + loaded_sessions option" where
  "validated_sessions data (Some (JArr entries)) =
     and_then (map_exn validate_session entries) (\<lambda>validSessions.
     and_then (get_prop (Some data) ''activeSessionId'') (\<lambda>a.
     and_then (get_prop (Some data) ''timestamp'') (\<lambda>ts.
       Inr (Some \<lparr>ls_sessions = List.map_filter (\<lambda>x. x) validSessions,
                   ls_activeSessionId = a, ls_timestamp = ts\<rparr>))))"
| "validated_sessions data sessions = Inr None"

definition sessions_of :: "json \<Rightarrow> exn + loaded_sessions option" where
  "sessions_of data = and_then (get_prop (Some data) ''sessions'') (validated_sessions data)"

definition loadSessions ::
  "(json \<Rightarrow> exn + rat option) \<Rightarrow> substrate \<Rightarrow> loaded_sessions option \<times> substrate" where
  "loadSessions = load KEY_sessions sessions_of"

subsection \<open>saveMessages, loadMessages\<close>



record loaded_messages =
  lm_sessionMessages :: "json list"
  lm_timestamp :: jsval

fun validated_messages :: "json \<Rightarrow> jsval \<Rightarrow> exn + loaded_messages option" where
  "validated_messages data (Some (JArr entries)) =
     and_then (get_prop (Some data) ''timestamp'') (\<lambda>ts.
       Inr (Some \<lparr>lm_sessionMessages = entries, lm_timestamp = ts\<rparr>))"
| "validated_messages data sessionMessages = Inr None"

definition messages_of :: "json \<Rightarrow> exn + loaded_messages option" where
  "messages_of data =
     and_then (get_prop (Some data) ''sessionMessages'') (validated_messages data)"

definition loadMessages ::
  "(json \<Rightarrow> exn + rat option) \<Rightarrow> substrate \<Rightarrow> loaded_messages option \<times> substrate" where
  "loadMessages = load KEY_messages messages_of"

subsection \<open>What the codec writes and reads back\<close>

text \<open>
  The object \<^verbatim>\<open>saveDocuments\<close> writes for a document whose \<^verbatim>\<open>metadata\<close> is neither
  \<^verbatim>\<open>null\<close> nor \<^verbatim>\<open>undefined\<close> (so that reading its properties does not throw), and the
  object \<^verbatim>\<open>loadDocuments\<close> makes of that.
\<close>

definition field :: "jsval \<Rightarrow> string \<Rightarrow> jsval" where
  "field v p = (case get_prop v p of Inl e \<Rightarrow> None | Inr x \<Rightarrow> x)"

definition written_metadata :: "jsval \<Rightarrow> json" where
  "written_metadata m =
     object_of [(''name'', field m ''name''), (''size'', field m ''size''),
                (''type'', field m ''type''), (''uploadedAt'', field m ''uploadedAt'')]"

definition written_document :: "document \<Rightarrow> json" where
  "written_document doc =
     object_of [(''docId'', docId doc),
                (''state'', state doc),
                (''metadata'', Some (written_metadata (metadata doc))),
                (''parsedArtifactId'', parsedArtifactId doc),
                (''parseError'', parseError doc)]"

definition properties :: "json \<Rightarrow> (string \<times> json) list" where
  "properties v = (case v of JObj ps \<Rightarrow> ps | _ \<Rightarrow> [])"

definition loaded_document :: "document \<Rightarrow> (string \<times> json) list" where
  "loaded_document doc = downgrade_parsing (downgrade_parsed (properties (written_document doc)))"

section \<open>The Document Store (stores.js)\<close>

text \<open>
  \<open>documents\<close> is the Map, in insertion order; \<^verbatim>\<open>set\<close> replaces the value of a key
  where it stands or appends a new key (\<open>AList.update\<close>). The keys are values with
  their identity, so that an array or an object is the key of an entry only if it is
  that very array or object. \<open>created\<close> counts the entries made so far; the document
  object of an entry, and its key when \<^verbatim>\<open>JSON.parse\<close> had to make an array or an object
  for it, are known by the number of the entry.

  Each reading of \<^verbatim>\<open>Date.now()\<close> is an argument of the operation that takes it.
\<close>

record DocumentStore =
  documents :: "(val \<times> document) list"
  created :: nat

definition new_DocumentStore :: DocumentStore where
  "new_DocumentStore = \<lparr>documents = [], created = 0\<rparr>"

definition DocumentStore_persist :: "DocumentStore \<Rightarrow> nat \<Rightarrow> substrate \<Rightarrow> substrate" where
  "DocumentStore_persist st now ls = saveDocuments (documents st) now ls"

definition addDocument ::
  "DocumentStore \<Rightarrow> substrate \<Rightarrow> File \<Rightarrow> nat \<Rightarrow> nat \<Rightarrow> nat \<Rightarrow> val \<times> DocumentStore \<times> substrate" where
  "addDocument st ls f now_id now_uploaded now_saved =
     (let docId' = Text (toString now_id);
          document = \<lparr>docId = plain docId',
                      state = Some UPLOADED,
                      metadata = Some (object_of
                        [(''name'', Some (JStr (file_name f))),
                         (''size'', Some (JNum (of_nat (file_size f)))),
                         (''type'', Some (JStr (file_type f))),
                         (''uploadedAt'', Some (JNum (of_nat now_uploaded)))]),
                      doc_file = Some f,
                      parsedArtifactId = Some JNull,
                      parseError = Some JNull,
                      requiresReupload = False,
                      ref = created st\<rparr>;
          st' = st\<lparr>documents := AList.update docId' document (documents st),
                    created := Suc (created st)\<rparr>
      in (docId', st', DocumentStore_persist st' now_saved ls))"

definition reuploadDocument ::
  "DocumentStore \<Rightarrow> substrate \<Rightarrow> val \<Rightarrow> File \<Rightarrow> nat \<Rightarrow> bool \<times> DocumentStore \<times> substrate" where
  "reuploadDocument st ls docId' f now =
     (case map_of (documents st) docId' of
        None \<Rightarrow> (False, st, ls)
      | Some doc \<Rightarrow>
          (let doc' = doc\<lparr>doc_file := Some f, state := Some UPLOADED,
                          parseError := Some JNull, requiresReupload := False\<rparr>;
               st' = st\<lparr>documents := AList.update docId' doc' (documents st)\<rparr>
           in (True, st', DocumentStore_persist st' now ls)))"

definition getDocument :: "DocumentStore \<Rightarrow> val \<Rightarrow> document option" where
  "getDocument st docId' = map_of (documents st) docId'"

definition isQueryable :: "DocumentStore \<Rightarrow> val \<Rightarrow> bool" where
  "isQueryable st docId' =
     (case map_of (documents st) docId' of
        None \<Rightarrow> False
      | Some doc \<Rightarrow> state doc = Some PARSED \<and> parsedArtifactId doc \<noteq> Some JNull)"

text \<open>
  \<^verbatim>\<open>parseDocument\<close> is asynchronous. It runs up to its first \<^verbatim>\<open>await\<close> when it is
  called: either its promise is settled at once (\<open>Returned\<close>), or the call is waiting
  for the backend (\<open>Awaiting r\<close>), holding the document object \<open>r\<close> it found.
\<close>

datatype parse_call = Returned bool | Awaiting nat

definition parseDocument ::
  "DocumentStore \<Rightarrow> substrate \<Rightarrow> val \<Rightarrow> nat \<Rightarrow> parse_call \<times> DocumentStore \<times> substrate" where
  "parseDocument st ls docId' now =
     (case map_of (documents st) docId' of
        None \<Rightarrow> (Returned False, st, ls)
      | Some doc \<Rightarrow>
          if doc_file doc = None then
            (let st' = st\<lparr>documents :=
                   AList.update docId' (doc\<lparr>state := Some REQUIRES_REUPLOAD\<rparr>) (documents st)\<rparr>
             in (Returned False, st', DocumentStore_persist st' now ls))
          else if state doc \<noteq> Some UPLOADED then (Returned False, st, ls)
          else
            (let st' = st\<lparr>documents :=
                   AList.update docId' (doc\<lparr>state := Some PARSING, parseError := Some JNull\<rparr>)
                     (documents st)\<rparr>
             in (Awaiting (ref doc), st', DocumentStore_persist st' now ls)))"

text \<open>
  What the call meets when it resumes. \<open>Succeeded result\<close>: the response was ok and
  its body is the JSON value \<open>result\<close>. \<open>Failed msg\<close>: \<^verbatim>\<open>fetch\<close> rejected, the response
  was not ok, or its body was not JSON; \<open>msg\<close> is the message of the error that reaches
  the \<^verbatim>\<open>catch\<close> (for a response that is not ok, \<^verbatim>\<open>errorData.error || 'Parse failed'\<close>).

  The call assigns to the object it holds. That object is seen through the store only
  while the map still holds it.
\<close>

datatype response = Failed string | Succeeded json

definition assign :: "nat \<Rightarrow> (document \<Rightarrow> document) \<Rightarrow> DocumentStore \<Rightarrow> DocumentStore" where
  "assign r f st =
     st\<lparr>documents := map (\<lambda>(k, d). if ref d = r then (k, f d) else (k, d)) (documents st)\<rparr>"

definition parse_failed :: "DocumentStore \<Rightarrow> substrate \<Rightarrow> nat \<Rightarrow> string \<Rightarrow> nat \<Rightarrow> bool \<times> DocumentStore \<times> substrate" where
  "parse_failed st ls r msg now =
     (let st' = assign r (\<lambda>d. d\<lparr>state := Some PARSE_FAILED, parseError := Some (JStr msg)\<rparr>) st
      in (False, st', DocumentStore_persist st' now ls))"

text \<open>The message of the TypeError of \<^verbatim>\<open>result.documentId\<close> on a \<^verbatim>\<open>null\<close> body, in the wording of the V8 engine.\<close>

definition null_body_message :: string where
  "null_body_message = ''Cannot read properties of null (reading 'documentId')''"

definition parseDocument_resume ::
  "DocumentStore \<Rightarrow> substrate \<Rightarrow> nat \<Rightarrow> response \<Rightarrow> nat \<Rightarrow> bool \<times> DocumentStore \<times> substrate" where
  "parseDocument_resume st ls r resp now =
     (case resp of
        Failed msg \<Rightarrow> parse_failed st ls r msg now
      | Succeeded result \<Rightarrow>
          (case get_prop (Some result) ''documentId'' of
             Inl e \<Rightarrow> parse_failed st ls r null_body_message now
           | Inr artifact \<Rightarrow>
               (let st' = assign r (\<lambda>d. d\<lparr>parsedArtifactId := artifact, state := Some PARSED\<rparr>) st
                in (True, st', DocumentStore_persist st' now ls))))"

text \<open>
  \<^verbatim>\<open>restore\<close>: the object built for one saved entry, with its two downgrades, set
  under the key that \<^verbatim>\<open>JSON.parse\<close> made for the entry.
\<close>

definition restored_document :: "(string \<times> json) list \<Rightarrow> nat \<Rightarrow> document" where
  "restored_document docData r =
     (let document = \<lparr>docId = map_of docData ''docId'',
                       state = map_of docData ''state'',
                       metadata = map_of docData ''metadata'',
                       doc_file = None,
                       parsedArtifactId = map_of docData ''parsedArtifactId'',
                       parseError = map_of docData ''parseError'',
                       requiresReupload = False,
                       ref = r\<rparr>;
          document1 = (if state document = Some PARSED \<and> doc_file document = None
                       then document\<lparr>state := Some REQUIRES_REUPLOAD\<rparr> else document);
          document2 = (if state document1 = Some PARSING
                       then document1\<lparr>state := Some REQUIRES_REUPLOAD\<rparr> else document1)
      in document2)"

definition restore_entry :: "DocumentStore \<Rightarrow> json \<times> (string \<times> json) list \<Rightarrow> DocumentStore" where
  "restore_entry st entry =
     st\<lparr>documents := AList.update (identify (created st) (fst entry))
                       (restored_document (snd entry) (created st)) (documents st),
        created := Suc (created st)\<rparr>"

definition DocumentStore_restore ::
  "(json \<Rightarrow> exn + rat option) \<Rightarrow> DocumentStore \<Rightarrow> substrate \<Rightarrow> DocumentStore \<times> substrate" where
  "DocumentStore_restore ToNumber st ls =
     (case loadDocuments ToNumber ls of
        (None, ls') \<Rightarrow> (st, ls')
      | (Some saved, ls') \<Rightarrow> (foldl restore_entry st (ld_documents saved), ls'))"

section \<open>The Document Store over time\<close>

text \<open>
  What can happen to a Document Store and the substrate behind it, one event at a time:
  the four operations; the moment a waiting \<^verbatim>\<open>parseDocument\<close> call resumes with the
  backend's response (only a call that was started and has not resumed yet can do so);
  a reload of the page, which starts from a new store with nothing in flight;
  and what the store does not control: anything else writing or removing the documents
  entry of the substrate, and the substrate starting or ceasing to refuse accesses.
\<close>

datatype doc_event =
    AddDocument File nat nat nat
  | ReuploadDocument val File nat
  | ParseDocument val nat
  | Resume nat response nat
  | Restore
  | Reload
  | Overwrite "stored option"
  | Environment bool bool

record doc_system =
  store :: DocumentStore
  storage :: substrate
  pending :: "nat list"

definition started :: "parse_call \<Rightarrow> nat list \<Rightarrow> nat list" where
  "started call waiting = (case call of Returned b \<Rightarrow> waiting | Awaiting r \<Rightarrow> r # waiting)"

fun doc_step :: "(json \<Rightarrow> exn + rat option) \<Rightarrow> doc_system \<Rightarrow> doc_event \<Rightarrow> doc_system" where
  "doc_step T sys (AddDocument f now_id now_uploaded now_saved) =
     (case addDocument (store sys) (storage sys) f now_id now_uploaded now_saved of
        (docId', st', ls') \<Rightarrow> sys\<lparr>store := st', storage := ls'\<rparr>)"
| "doc_step T sys (ReuploadDocument docId' f now) =
     (case reuploadDocument (store sys) (storage sys) docId' f now of
        (ok, st', ls') \<Rightarrow> sys\<lparr>store := st', storage := ls'\<rparr>)"
| "doc_step T sys (ParseDocument docId' now) =
     (case parseDocument (store sys) (storage sys) docId' now of
        (call, st', ls') \<Rightarrow>
          sys\<lparr>store := st', storage := ls', pending := started call (pending sys)\<rparr>)"
| "doc_step T sys (Resume r resp now) =
     (if r \<in> set (pending sys)
      then (case parseDocument_resume (store sys) (storage sys) r resp now of
              (ok, st', ls') \<Rightarrow>
                sys\<lparr>store := st', storage := ls', pending := remove1 r (pending sys)\<rparr>)
      else sys)"
| "doc_step T sys Restore =
     (case DocumentStore_restore T (store sys) (storage sys) of
        (st', ls') \<Rightarrow> sys\<lparr>store := st', storage := ls'\<rparr>)"
| "doc_step T sys Reload = sys\<lparr>store := new_DocumentStore, pending := []\<rparr>"
| "doc_step T sys (Overwrite v) =
     sys\<lparr>storage := (storage sys)\<lparr>items := (items (storage sys))(KEY_documents := v)\<rparr>\<rparr>"
| "doc_step T sys (Environment d f) =
     sys\<lparr>storage := (storage sys)\<lparr>denied := d, full := f\<rparr>\<rparr>"

definition doc_run :: "(json \<Rightarrow> exn + rat option) \<Rightarrow> doc_system \<Rightarrow> doc_event list \<Rightarrow> doc_system" where
  "doc_run T sys events = foldl (doc_step T) sys events"

definition page_load :: "substrate \<Rightarrow> doc_system" where
  "page_load ls = \<lparr>store = new_DocumentStore, storage = ls, pending = []\<rparr>"





definition present :: "jsval \<Rightarrow> bool" where
  "present v = (v \<noteq> None \<and> v \<noteq> Some JNull)"


text \<open>
  The entries a store can hold, which are what \<^verbatim>\<open>addDocument\<close> and \<^verbatim>\<open>restore\<close> put in:
  the key and the properties \<^verbatim>\<open>docId\<close>, \<^verbatim>\<open>state\<close> and \<^verbatim>\<open>metadata\<close> are truthy, and
  no two entries have the same key. \<open>valid_properties\<close> is what \<^verbatim>\<open>loadDocuments\<close>
  checks of an object.
\<close>

definition well_formed :: "val \<times> document \<Rightarrow> bool" where
  "well_formed entry =
     (truthy (plain (fst entry)) \<and> truthy (docId (snd entry)) \<and> truthy (state (snd entry))
      \<and> present (metadata (snd entry)))"

definition store_invariant :: "DocumentStore \<Rightarrow> bool" where
  "store_invariant st = (list_all well_formed (documents st) \<and> distinct (map fst (documents st)))"

definition valid_properties :: "(string \<times> json) list \<Rightarrow> bool" where
  "valid_properties ps = (truthy (map_of ps ''docId'') \<and> truthy (map_of ps ''state'')
     \<and> truthy (map_of ps ''metadata''))"

text \<open>
  What \<^verbatim>\<open>saveDocuments\<close> writes for an entry and for a map of well formed entries, and
  the key under which \<^verbatim>\<open>restore\<close> sets what was written for the key \<open>k\<close> when it makes
  entry number \<open>a\<close>: \<open>k\<close> itself when \<open>k\<close> is a string, a number or a boolean, a new
  array or object with the content of \<open>k\<close> otherwise.
\<close>

definition written_entry :: "val \<times> document \<Rightarrow> json" where
  "written_entry entry = array_of [plain (fst entry), Some (written_document (snd entry))]"

definition written_documents :: "(val \<times> document) list \<Rightarrow> nat \<Rightarrow> json" where
  "written_documents docs now =
     object_of [(''version'', Some (JNum STORAGE_VERSION)),
                (''documents'', Some (JArr (map written_entry docs))),
                (''timestamp'', Some (JNum (of_nat now)))]"


text \<open>
  What holds of the object identities: every object of the map and every object a
  waiting call holds was created by this store, and no two objects of the map are the
  same object.
\<close>

definition references_ok :: "DocumentStore \<Rightarrow> nat list \<Rightarrow> bool" where
  "references_ok st waiting =
     (list_all (\<lambda>entry. ref (snd entry) < created st) (documents st)
      \<and> distinct (map (\<lambda>entry. ref (snd entry)) (documents st))
      \<and> list_all (\<lambda>r. r < created st) waiting)"

definition references_invariant :: "doc_system \<Rightarrow> bool" where
  "references_invariant sys = references_ok (store sys) (pending sys)"

text \<open>
  What holds of the files: a document that is PARSED, and a document that a waiting
  call holds, has its file (no operation takes a file away, and \<^verbatim>\<open>restore\<close> makes new
  objects).
\<close>

definition file_invariant :: "doc_system \<Rightarrow> bool" where
  "file_invariant sys =
     (references_invariant sys
      \<and> list_all (\<lambda>entry. state (snd entry) = Some PARSED \<or> ref (snd entry) \<in> set (pending sys)
                    \<longrightarrow> doc_file (snd entry) \<noteq> None)
          (documents (store sys)))"















section \<open>The Session Store (stores.js)\<close>

text \<open>
  \<open>sessions\<close> is the Map. Its keys, the document ids of a session and the ids passed
  to the operations are values with their identity: \<^verbatim>\<open>get\<close>, \<^verbatim>\<open>has\<close> and
  \<^verbatim>\<open>includes\<close> find an array or an object only if it is that very array or object.
  \<open>parsed\<close> counts the addresses given so far to the arrays and objects that
  \<^verbatim>\<open>JSON.parse\<close> made for \<^verbatim>\<open>restore\<close>.
\<close>

record SessionStore =
  sessions :: "(val \<times> session) list"
  activeSessionId :: val
  parsed :: nat

definition new_SessionStore :: SessionStore where
  "new_SessionStore = \<lparr>sessions = [], activeSessionId = Null, parsed = 0\<rparr>"

definition ACTIVE :: json where "ACTIVE = JStr ''ACTIVE''"

definition SessionStore_persist :: "SessionStore \<Rightarrow> nat \<Rightarrow> substrate \<Rightarrow> substrate" where
  "SessionStore_persist st now ls = saveSessions (sessions st) (activeSessionId st) now ls"

text \<open>The default value of the parameter \<^verbatim>\<open>name\<close> stands in for \<^verbatim>\<open>undefined\<close> only.\<close>

definition createSession ::
  "SessionStore \<Rightarrow> substrate \<Rightarrow> jsval \<Rightarrow> nat \<Rightarrow> nat \<Rightarrow> nat \<Rightarrow> val \<times> SessionStore \<times> substrate" where
  "createSession st ls name now_id now_created now_saved =
     (let sessionId' = Text (toString now_id);
          session = \<lparr>sessionId = plain sessionId',
                     session_name = (case name of None \<Rightarrow> Some (JStr ''Untitled Session'')
                                     | Some v \<Rightarrow> Some v),
                     session_state = Some ACTIVE,
                     activeDocumentIds = [],
                     activeDocumentId = Null,
                     createdAt = Some (JNum (of_nat now_created))\<rparr>;
          st' = st\<lparr>sessions := AList.update sessionId' session (sessions st),
                    activeSessionId := sessionId'\<rparr>
      in (sessionId', st', SessionStore_persist st' now_saved ls))"

definition getActiveSession :: "SessionStore \<Rightarrow> session option" where
  "getActiveSession st =
     (if truthy (plain (activeSessionId st)) then map_of (sessions st) (activeSessionId st)
      else None)"

definition setActiveSession ::
  "SessionStore \<Rightarrow> substrate \<Rightarrow> val \<Rightarrow> nat \<Rightarrow> SessionStore \<times> substrate" where
  "setActiveSession st ls sessionId' now =
     (if map_of (sessions st) sessionId' \<noteq> None
      then (let st' = st\<lparr>activeSessionId := sessionId'\<rparr>
            in (st', SessionStore_persist st' now ls))
      else (st, ls))"

definition addDocumentToSession ::
  "SessionStore \<Rightarrow> substrate \<Rightarrow> val \<Rightarrow> val \<Rightarrow> nat \<Rightarrow> SessionStore \<times> substrate" where
  "addDocumentToSession st ls sessionId' docId' now =
     (case map_of (sessions st) sessionId' of
        None \<Rightarrow> (st, ls)
      | Some session \<Rightarrow>
          if docId' \<in> set (activeDocumentIds session) then (st, ls)
          else
            (let session' = session\<lparr>activeDocumentIds := activeDocumentIds session @ [docId'],
                                    activeDocumentId := docId'\<rparr>;
                 st' = st\<lparr>sessions := AList.update sessionId' session' (sessions st)\<rparr>
             in (st', SessionStore_persist st' now ls)))"

definition setActiveDocument ::
  "SessionStore \<Rightarrow> substrate \<Rightarrow> val \<Rightarrow> val \<Rightarrow> nat \<Rightarrow> SessionStore \<times> substrate" where
  "setActiveDocument st ls sessionId' docId' now =
     (case map_of (sessions st) sessionId' of
        None \<Rightarrow> (st, ls)
      | Some session \<Rightarrow>
          if docId' \<in> set (activeDocumentIds session)
          then
            (let session' = session\<lparr>activeDocumentId := docId'\<rparr>;
                 st' = st\<lparr>sessions := AList.update sessionId' session' (sessions st)\<rparr>
             in (st', SessionStore_persist st' now ls))
          else (st, ls))"

text \<open>
  \<^verbatim>\<open>restore\<close> sets each retained object under its key. \<open>session_of\<close> reads the six
  properties of such an object; \<^verbatim>\<open>loadSessions\<close> has checked that \<^verbatim>\<open>activeDocumentIds\<close>
  is an array. The key of the entry, the \<^verbatim>\<open>activeDocumentId\<close> of the object and the
  elements of its \<^verbatim>\<open>activeDocumentIds\<close> are separate values that \<^verbatim>\<open>JSON.parse\<close> made:
  where they are arrays or objects they have addresses of their own, the key at \<open>a\<close>,
  the active id at \<open>a + 1\<close>, the elements from \<open>a + 2\<close> on.
\<close>

definition elements :: "jsval \<Rightarrow> json list" where
  "elements v = (case v of Some (JArr xs) \<Rightarrow> xs | _ \<Rightarrow> [])"

definition session_of :: "nat \<Rightarrow> (string \<times> json) list \<Rightarrow> session" where
  "session_of a ps =
     \<lparr>sessionId = map_of ps ''sessionId'',
      session_name = map_of ps ''name'',
      session_state = map_of ps ''state'',
      activeDocumentIds = identify_all (Suc a) (elements (map_of ps ''activeDocumentIds'')),
      activeDocumentId = identify_value a (map_of ps ''activeDocumentId''),
      createdAt = map_of ps ''createdAt''\<rparr>"

definition restore_session ::
  "(val \<times> session) list \<times> nat \<Rightarrow> json \<times> (string \<times> json) list \<Rightarrow> (val \<times> session) list \<times> nat" where
  "restore_session acc entry =
     (AList.update (identify (snd acc) (fst entry)) (session_of (Suc (snd acc)) (snd entry)) (fst acc),
      snd acc + 2 + length (elements (map_of (snd entry) ''activeDocumentIds'')))"

definition SessionStore_restore ::
  "(json \<Rightarrow> exn + rat option) \<Rightarrow> SessionStore \<Rightarrow> substrate \<Rightarrow> SessionStore \<times> substrate" where
  "SessionStore_restore ToNumber st ls =
     (case loadSessions ToNumber ls of
        (None, ls') \<Rightarrow> (st, ls')
      | (Some saved, ls') \<Rightarrow>
          (case foldl restore_session (sessions st, parsed st) (ls_sessions saved) of
             (m, a) \<Rightarrow>
               (\<lparr>sessions = m,
                 activeSessionId = identify_value a (ls_activeSessionId saved),
                 parsed = Suc a\<rparr>, ls')))"

subsection \<open>The Session Store over time\<close>

text \<open>
  The five operations, a reload of the page (a new store over the same substrate),
  \<^verbatim>\<open>clearSessions\<close>, and the substrate starting or ceasing to refuse accesses.
\<close>

datatype session_event =
    CreateSession jsval nat nat nat
  | SetActiveSession val nat
  | AddDocumentToSession val val nat
  | SetActiveDocument val val nat
  | RestoreSessions
  | ReloadPage
  | ClearSessions
  | StorageEnvironment bool bool

record session_system =
  session_store :: SessionStore
  session_storage :: substrate

fun session_step ::
  "(json \<Rightarrow> exn + rat option) \<Rightarrow> session_system \<Rightarrow> session_event \<Rightarrow> session_system" where
  "session_step T sys (CreateSession name now_id now_created now_saved) =
     (case createSession (session_store sys) (session_storage sys) name now_id now_created now_saved of
        (sessionId', st', ls') \<Rightarrow> \<lparr>session_store = st', session_storage = ls'\<rparr>)"
| "session_step T sys (SetActiveSession sessionId' now) =
     (case setActiveSession (session_store sys) (session_storage sys) sessionId' now of
        (st', ls') \<Rightarrow> \<lparr>session_store = st', session_storage = ls'\<rparr>)"
| "session_step T sys (AddDocumentToSession sessionId' docId' now) =
     (case addDocumentToSession (session_store sys) (session_storage sys) sessionId' docId' now of
        (st', ls') \<Rightarrow> \<lparr>session_store = st', session_storage = ls'\<rparr>)"
| "session_step T sys (SetActiveDocument sessionId' docId' now) =
     (case setActiveDocument (session_store sys) (session_storage sys) sessionId' docId' now of
        (st', ls') \<Rightarrow> \<lparr>session_store = st', session_storage = ls'\<rparr>)"
| "session_step T sys RestoreSessions =
     (case SessionStore_restore T (session_store sys) (session_storage sys) of
        (st', ls') \<Rightarrow> \<lparr>session_store = st', session_storage = ls'\<rparr>)"
| "session_step T sys ReloadPage = sys\<lparr>session_store := new_SessionStore\<rparr>"
| "session_step T sys ClearSessions = sys\<lparr>session_storage := clearSessions (session_storage sys)\<rparr>"
| "session_step T sys (StorageEnvironment d f) =
     sys\<lparr>session_storage := (session_storage sys)\<lparr>denied := d, full := f\<rparr>\<rparr>"

definition session_run ::
  "(json \<Rightarrow> exn + rat option) \<Rightarrow> session_system \<Rightarrow> session_event list \<Rightarrow> session_system" where
  "session_run T sys events = foldl (session_step T) sys events"

definition first_page_load :: "substrate \<Rightarrow> session_system" where
  "first_page_load ls = \<lparr>session_store = new_SessionStore, session_storage = ls\<rparr>"

text \<open>
  What a caller sees of the sessions of a store: for each key, the document ids of
  the session and its active document id.
\<close>

definition selections :: "SessionStore \<Rightarrow> (val \<times> val list \<times> val) list" where
  "selections st =
     map (\<lambda>entry. (fst entry, activeDocumentIds (snd entry), activeDocumentId (snd entry)))
       (sessions st)"

section \<open>The Chat Store (stores.js)\<close>

text \<open>
  \<^verbatim>\<open>getMessages\<close> hands an array to its caller, and what the caller can then do to the
  store depends on which arrays and objects are shared. So the arrays and the objects
  live in a memory, under addresses. An element of an array is a value held as it is
  (\<^verbatim>\<open>undefined\<close>, \<^verbatim>\<open>null\<close>, a boolean, a number, a string) or the address of an object.
  An object is a message that \<^verbatim>\<open>addMessage\<close> made, or an array or object that
  \<^verbatim>\<open>JSON.parse\<close> made for \<^verbatim>\<open>restore\<close>, known by its content. \<open>next_array\<close> and
  \<open>next_object\<close> are the addresses of the next array and the next object to be made.
\<close>

record message =
  message_id :: jsval
  role :: jsval
  content :: jsval
  evidence :: jsval
  message_createdAt :: jsval

datatype item = Message message | Parsed jsval

datatype element = Held jsval | At nat

record memory =
  arrays :: "nat \<Rightarrow> element list"
  next_array :: nat
  objects :: "nat \<Rightarrow> item"
  next_object :: nat

text \<open>
  The Map of the store holds, for a key, the address of an array (\<open>Log\<close>), or after a
  \<^verbatim>\<open>restore\<close> whatever else the stored entry gave as its second part (\<open>Other\<close>, a value
  that is not an array).
\<close>

datatype held = Log nat | Other jsval

record ChatStore =
  sessionMessages :: "(val \<times> held) list"
  isSending :: bool




text \<open>What a caller finds at an element, and in an array.\<close>

definition seen :: "memory \<Rightarrow> element \<Rightarrow> item" where
  "seen mem e = (case e of Held v \<Rightarrow> Parsed v | At n \<Rightarrow> objects mem n)"














subsection \<open>restore\<close>









subsection \<open>The Chat Store and its callers over time\<close>













text \<open>A memory that has grown: what was made is still there.\<close>

definition grown :: "memory \<Rightarrow> memory \<Rightarrow> bool" where
  "grown mem mem' =
     (next_array mem \<le> next_array mem' \<and> next_object mem \<le> next_object mem'
      \<and> (\<forall>a < next_array mem. arrays mem' a = arrays mem a))"

section \<open>Concrete stores\<close>

definition a_file :: File where
  "a_file = \<lparr>file_name = ''report.txt'', file_size = 120, file_type = ''text/plain''\<rparr>"

definition empty_substrate :: substrate where
  "empty_substrate = \<lparr>items = (\<lambda>k. None), denied = False, full = False\<rparr>"

definition a_document :: "json \<Rightarrow> File option \<Rightarrow> json \<Rightarrow> json \<Rightarrow> document" where
  "a_document s f artifact err =
     \<lparr>docId = Some (JStr ''1''),
      state = Some s,
      metadata = Some (JObj [(''name'', JStr ''report.txt''), (''size'', JNum 120),
                             (''type'', JStr ''text/plain''), (''uploadedAt'', JNum 1)]),
      doc_file = f,
      parsedArtifactId = Some artifact,
      parseError = Some err,
      requiresReupload = False,
      ref = 0\<rparr>"

definition a_store :: "json \<Rightarrow> File option \<Rightarrow> json \<Rightarrow> json \<Rightarrow> DocumentStore" where
  "a_store s f artifact err =
     \<lparr>documents = [(Text ''1'', a_document s f artifact err)], created = 1\<rparr>"

definition version_1 :: json where
  "version_1 = JObj [(''version'', JNum 1), (''documents'', JArr [])]"

definition holding :: "string \<Rightarrow> stored \<Rightarrow> substrate" where
  "holding key text =
     \<lparr>items = (\<lambda>k. if k = key then Some text else None), denied = False, full = False\<rparr>"

definition ok_body :: json where
  "ok_body = JObj [(''success'', JBool True), (''documentId'', JStr ''1''),
                   (''textLength'', JNum 120), (''timestamp'', JStr ''2026-01-01T00:00:00.000Z'')]"

definition a_history :: "doc_event list" where
  "a_history = [AddDocument a_file 1 1 1, ParseDocument (Text ''1'') 2,
                Resume 0 (Succeeded ok_body) 3]"



definition a_saved_substrate :: substrate where
  "a_saved_substrate =
     saveDocuments [(Text ''1'', a_document PARSED (Some a_file) (JStr ''1'') JNull)] 4
       empty_substrate"



definition a_parse_with :: "json \<Rightarrow> doc_event list" where
  "a_parse_with body = [AddDocument a_file 1 1 1, ParseDocument (Text ''1'') 2,
                        Resume 0 (Succeeded body) 3]"

definition a_session_history :: "session_event list" where
  "a_session_history =
     [CreateSession None 1 1 1,
      AddDocumentToSession (Text ''1'') (Text ''d1'') 2,
      AddDocumentToSession (Text ''1'') (Text ''d2'') 3,
      SetActiveDocument (Text ''1'') (Text ''d1'') 4]"

definition a_session :: session where
  "a_session =
     \<lparr>sessionId = Some (JStr ''1''), session_name = Some (JStr ''Untitled Session''),
      session_state = Some ACTIVE,
      activeDocumentIds = [Text ''d1'', Text ''d2''],
      activeDocumentId = Text ''d1'', createdAt = Some (JNum 1)\<rparr>"

definition a_saved_session :: "(string \<times> json) list" where
  "a_saved_session =
     [(''sessionId'', JStr ''1''), (''name'', JStr ''Untitled Session''), (''state'', JStr ''ACTIVE''),
      (''activeDocumentIds'', JArr [JStr ''d1'', JStr ''d2'']), (''createdAt'', JNum 1)]"






definition an_array_keyed_substrate :: substrate where
  "an_array_keyed_substrate =
     saveDocuments [(Array 7 [JStr ''k''], a_document UPLOADED None JNull JNull)] 4
       empty_substrate"

definition an_array_keyed_history :: "doc_event list" where
  "an_array_keyed_history =
     [Restore, ReuploadDocument (Array 0 [JStr ''k'']) a_file 5,
      ParseDocument (Array 0 [JStr ''k'']) 6]"

text \<open>
  A stored value whose version is an object with \<^verbatim>\<open>valueOf\<close> and \<^verbatim>\<open>toString\<close> that are
  not functions, and a conversion that throws on that object, as the engine's does.
\<close>

definition an_unconvertible :: json where
  "an_unconvertible = JObj [(''valueOf'', JNum 0), (''toString'', JNum 0)]"

definition a_conversion :: "json \<Rightarrow> exn + rat option" where
  "a_conversion v = (if v = an_unconvertible then Inl TypeError else Inr None)"
section \<open>parseDocument, one call\<close>

lemmas state_defs = UPLOADED_def PARSING_def PARSE_FAILED_def PARSED_def REQUIRES_REUPLOAD_def

lemma parseDocument_unknown:
  "map_of (documents st) docId' = None \<Longrightarrow> parseDocument st ls docId' now = (Returned False, st, ls)"
  by (simp add: parseDocument_def)

lemma parseDocument_no_file:
  "map_of (documents st) docId' = Some doc \<Longrightarrow> doc_file doc = None \<Longrightarrow>
   parseDocument st ls docId' now =
     (Returned False,
      st\<lparr>documents := AList.update docId' (doc\<lparr>state := Some REQUIRES_REUPLOAD\<rparr>) (documents st)\<rparr>,
      saveDocuments (AList.update docId' (doc\<lparr>state := Some REQUIRES_REUPLOAD\<rparr>) (documents st)) now ls)"
  by (simp add: parseDocument_def DocumentStore_persist_def Let_def)

lemma parseDocument_refused:
  "map_of (documents st) docId' = Some doc \<Longrightarrow> doc_file doc = Some f \<Longrightarrow>
   state doc \<noteq> Some UPLOADED \<Longrightarrow>
   parseDocument st ls docId' now = (Returned False, st, ls)"
  by (simp add: parseDocument_def)

lemma parseDocument_started:
  "map_of (documents st) docId' = Some doc \<Longrightarrow> doc_file doc = Some f \<Longrightarrow>
   state doc = Some UPLOADED \<Longrightarrow>
   parseDocument st ls docId' now =
     (Awaiting (ref doc),
      st\<lparr>documents := AList.update docId' (doc\<lparr>state := Some PARSING, parseError := Some JNull\<rparr>)
                          (documents st)\<rparr>,
      saveDocuments (AList.update docId' (doc\<lparr>state := Some PARSING, parseError := Some JNull\<rparr>)
                          (documents st)) now ls)"
  by (simp add: parseDocument_def DocumentStore_persist_def Let_def)

lemma states_distinct:
  "UPLOADED \<noteq> PARSING" "UPLOADED \<noteq> PARSE_FAILED" "UPLOADED \<noteq> PARSED"
  "UPLOADED \<noteq> REQUIRES_REUPLOAD" "PARSING \<noteq> PARSE_FAILED" "PARSING \<noteq> PARSED"
  "PARSING \<noteq> REQUIRES_REUPLOAD" "PARSE_FAILED \<noteq> PARSED"
  "PARSE_FAILED \<noteq> REQUIRES_REUPLOAD" "PARSED \<noteq> REQUIRES_REUPLOAD"
  by (simp_all add: UPLOADED_def PARSING_def PARSE_FAILED_def PARSED_def REQUIRES_REUPLOAD_def)

lemma states_not_null:
  "UPLOADED \<noteq> JNull" "PARSING \<noteq> JNull" "PARSE_FAILED \<noteq> JNull" "PARSED \<noteq> JNull"
  "REQUIRES_REUPLOAD \<noteq> JNull"
  by (simp_all add: UPLOADED_def PARSING_def PARSE_FAILED_def PARSED_def REQUIRES_REUPLOAD_def)

text \<open>
  C1. The claim: a document in state PARSE_FAILED with its file present is taken to
  PARSING by \<^verbatim>\<open>parseDocument\<close>. The code: the guard of \<^verbatim>\<open>parseDocument\<close> lets only
  UPLOADED through, so the call on the failed document of \<open>a_store\<close> returns failure and
  changes neither the store nor the substrate, although the page offers a "Retry parsing"
  button in that state which makes exactly this call.
\<close>

theorem parseDocument_PARSE_FAILED_is_refused:
  "state (a_document PARSE_FAILED (Some a_file) JNull (JStr ''Parse failed'')) = Some PARSE_FAILED
   \<and> doc_file (a_document PARSE_FAILED (Some a_file) JNull (JStr ''Parse failed'')) = Some a_file
   \<and> parseDocument (a_store PARSE_FAILED (Some a_file) JNull (JStr ''Parse failed''))
         empty_substrate (Text ''1'') 5
       = (Returned False, a_store PARSE_FAILED (Some a_file) JNull (JStr ''Parse failed''),
          empty_substrate)"
  by (simp add: parseDocument_def a_store_def a_document_def state_defs)

section \<open>The loaders\<close>

lemma load_nothing_stored:
  "items ls key = None \<Longrightarrow> load key validated T ls = (None, ls)"
  by (simp add: load_def load_body_def getItem_def and_then_def)

lemma load_denied:
  "denied ls \<Longrightarrow> load key validated T ls = (None, ls)"
  by (simp add: load_def load_body_def getItem_def and_then_def)

lemma load_not_JSON:
  "items ls key = Some NotJSON \<Longrightarrow> load key validated T ls = (None, ls)"
  by (simp add: load_def load_body_def getItem_def and_then_def JSON_parse_def)

lemma outdated_older: "older v \<Longrightarrow> outdated T v = Inr True"
  by (induction v rule: older.induct) simp_all

lemma load_stale:
  assumes "items ls key = Some (JSONText data)" and "stale data" and "\<not> denied ls"
  shows "load key validated T ls = (None, ls\<lparr>items := (items ls)(key := None)\<rparr>)"
proof -
  from assms(2) obtain v where v: "get_prop (Some data) ''version'' = Inr v" "older v"
    by (auto simp: stale_def split: sum.splits)
  then have "load_parsed key validated T ls data = Inr (None, clear key ls)"
    by (simp add: load_parsed_def and_then_def outdated_older)
  moreover have "clear key ls = ls\<lparr>items := (items ls)(key := None)\<rparr>"
    using assms(3) by (simp add: clear_def removeItem_def)
  ultimately show ?thesis
    using assms(1,3)
    by (simp add: load_def load_body_def getItem_def and_then_def JSON_parse_def)
qed

lemma load_caught:
  "load_body key validated T ls = Inl e \<Longrightarrow> load key validated T ls = (None, ls)"
  by (simp add: load_def)

text \<open>
  C10. Each of \<^verbatim>\<open>loadSessions\<close>, \<^verbatim>\<open>loadDocuments\<close> and \<^verbatim>\<open>loadMessages\<close> returns
  \<^verbatim>\<open>null\<close> and leaves the substrate as it is when nothing is stored under its key, when
  the stored string is not JSON, and when storage cannot be read at all; it returns
  \<^verbatim>\<open>null\<close> and removes the entry when the stored value has no version tag or a version
  number below 2; and whenever a statement inside it throws, the caller gets \<^verbatim>\<open>null\<close>
  and no exception. (The loaders are total functions that return a value: every
  exception of the body is a value \<open>Inl e\<close> that the \<^verbatim>\<open>catch\<close> turns into \<^verbatim>\<open>null\<close>.)
\<close>

theorem loaders_return_null:
  "(items ls KEY_sessions = None \<or> items ls KEY_sessions = Some NotJSON \<or> denied ls
      \<longrightarrow> loadSessions T ls = (None, ls))
 \<and> (items ls KEY_sessions = Some (JSONText data) \<and> stale data \<and> \<not> denied ls
      \<longrightarrow> loadSessions T ls = (None, ls\<lparr>items := (items ls)(KEY_sessions := None)\<rparr>))
 \<and> (load_body KEY_sessions sessions_of T ls = Inl e \<longrightarrow> loadSessions T ls = (None, ls))
 \<and> (items ls KEY_documents = None \<or> items ls KEY_documents = Some NotJSON \<or> denied ls
      \<longrightarrow> loadDocuments T ls = (None, ls))
 \<and> (items ls KEY_documents = Some (JSONText data) \<and> stale data \<and> \<not> denied ls
      \<longrightarrow> loadDocuments T ls = (None, ls\<lparr>items := (items ls)(KEY_documents := None)\<rparr>))
 \<and> (load_body KEY_documents documents_of T ls = Inl e \<longrightarrow> loadDocuments T ls = (None, ls))
 \<and> (items ls KEY_messages = None \<or> items ls KEY_messages = Some NotJSON \<or> denied ls
      \<longrightarrow> loadMessages T ls = (None, ls))
 \<and> (items ls KEY_messages = Some (JSONText data) \<and> stale data \<and> \<not> denied ls
      \<longrightarrow> loadMessages T ls = (None, ls\<lparr>items := (items ls)(KEY_messages := None)\<rparr>))
 \<and> (load_body KEY_messages messages_of T ls = Inl e \<longrightarrow> loadMessages T ls = (None, ls))"
  unfolding loadSessions_def loadDocuments_def loadMessages_def
  by (intro conjI impI; (elim disjE conjE)?;
      simp add: load_nothing_stored load_denied load_not_JSON load_stale load_caught)

theorem loaders_return_null_witness:
  "loadSessions (\<lambda>v. Inr None) (holding KEY_sessions NotJSON) = (None, holding KEY_sessions NotJSON)
 \<and> stale version_1
 \<and> loadDocuments (\<lambda>v. Inr None) (holding KEY_documents (JSONText version_1))
     = (None, (holding KEY_documents (JSONText version_1))
               \<lparr>items := (items (holding KEY_documents (JSONText version_1)))(KEY_documents := None)\<rparr>)
 \<and> loadMessages (\<lambda>v. Inr None) empty_substrate = (None, empty_substrate)
 \<and> load_body KEY_messages messages_of (\<lambda>v. Inr None) (holding KEY_messages (JSONText JNull)) = Inl TypeError
 \<and> loadMessages (\<lambda>v. Inr None) (holding KEY_messages (JSONText JNull))
     = (None, holding KEY_messages (JSONText JNull))
 \<and> load_body KEY_sessions sessions_of a_conversion
       (holding KEY_sessions (JSONText (JObj [(''version'', an_unconvertible)]))) = Inl TypeError
 \<and> loadSessions a_conversion (holding KEY_sessions (JSONText (JObj [(''version'', an_unconvertible)])))
     = (None, holding KEY_sessions (JSONText (JObj [(''version'', an_unconvertible)])))"
proof -
  have stale: "stale version_1"
    by (simp add: stale_def version_1_def STORAGE_VERSION_def)
  have thrown: "load_body KEY_messages messages_of (\<lambda>v. Inr None) (holding KEY_messages (JSONText JNull))
      = Inl TypeError"
    by (simp add: load_body_def getItem_def holding_def and_then_def JSON_parse_def load_parsed_def)
  have converted: "load_body KEY_sessions sessions_of a_conversion
       (holding KEY_sessions (JSONText (JObj [(''version'', an_unconvertible)]))) = Inl TypeError"
    by (simp add: load_body_def getItem_def holding_def and_then_def JSON_parse_def load_parsed_def
          a_conversion_def an_unconvertible_def)
  show ?thesis
    using stale thrown converted
      loaders_return_null [of "holding KEY_sessions (JSONText (JObj [(''version'', an_unconvertible)]))"
        a_conversion version_1 TypeError]
      loaders_return_null [of "holding KEY_sessions NotJSON" "\<lambda>v. Inr None" version_1 TypeError]
      loaders_return_null [of "holding KEY_documents (JSONText version_1)" "\<lambda>v. Inr None" version_1 TypeError]
      loaders_return_null [of empty_substrate "\<lambda>v. Inr None" version_1 TypeError]
      loaders_return_null [of "holding KEY_messages (JSONText JNull)" "\<lambda>v. Inr None" version_1 TypeError]
    by (simp add: holding_def empty_substrate_def)
qed

section \<open>PARSED documents and their artifact id\<close>

lemma set_update_subset: "set (AList.update k v al) \<subseteq> insert (k, v) (set al)"
  by (induction al) auto

lemma in_updateD: "e \<in> set (AList.update k v al) \<Longrightarrow> e = (k, v) \<or> e \<in> set al"
  using set_update_subset by fastforce

lemma map_of_in_set: "map_of al k = Some v \<Longrightarrow> (k, v) \<in> set al"
  by (rule map_of_SomeD)








lemma restored_not_PARSED: "state (restored_document ps r) \<noteq> Some PARSED"
  by (simp add: restored_document_def Let_def state_defs)














lemma toString_1: "toString (Suc 0) = ''1''"
  by code_simp

lemma a_parse_with_store:
  "get_prop (Some body) ''documentId'' = Inr artifact \<Longrightarrow>
   documents (store (doc_run T (page_load ls) (a_parse_with body)))
     = [(Text ''1'', (a_document PARSED (Some a_file) JNull JNull)\<lparr>parsedArtifactId := artifact\<rparr>)]"
  by (simp add: doc_run_def page_load_def a_parse_with_def addDocument_def parseDocument_def
        parseDocument_resume_def new_DocumentStore_def toString_1 Let_def started_def assign_def
        a_document_def a_file_def object_of_def state_defs)

lemma a_history_store:
  "documents (store (doc_run T (page_load ls) a_history))
     = [(Text ''1'', a_document PARSED (Some a_file) (JStr ''1'') JNull)]"
proof -
  have "get_prop (Some ok_body) ''documentId'' = Inr (Some (JStr ''1''))"
    by (simp add: ok_body_def)
  from a_parse_with_store [OF this, of T ls] show ?thesis
    by (simp add: a_history_def a_parse_with_def a_document_def)
qed



section \<open>Saving, loading and restoring documents\<close>

lemma map_of_object_of:
  "distinct (map fst ps) \<Longrightarrow>
   map_of (properties (object_of ps)) p = (case map_of ps p of None \<Rightarrow> None | Some v \<Rightarrow> v)"
proof (induction ps)
  case Nil
  then show ?case by (simp add: object_of_def properties_def)
next
  case (Cons a ps)
  obtain k v where a: "a = (k, v)" by (cases a)
  from Cons.prems have k: "k \<notin> fst ` set ps" and d: "distinct (map fst ps)"
    by (auto simp: a)
  from k have none: "map_of ps k = None"
    by (simp add: map_of_eq_None_iff)
  from Cons.IH [OF d] have IH:
    "map_of (List.map_filter (\<lambda>(k, v). map_option (Pair k) v) ps) p
       = (case map_of ps p of None \<Rightarrow> None | Some v \<Rightarrow> v)"
    by (simp add: object_of_def properties_def)
  show ?case
    using IH none
    by (cases v) (auto simp: a object_of_def properties_def)
qed

lemma object_of_is_object: "object_of ps = JObj (properties (object_of ps))"
  by (simp add: object_of_def properties_def)

lemma get_prop_present:
  "present m \<Longrightarrow> get_prop m p = Inr (field m p)"
  by (cases m rule: truthy.cases) (simp_all add: present_def field_def)

lemma canonical_metadata_present:
  "present m \<Longrightarrow> canonical_metadata m = Inr (written_metadata m)"
  by (simp add: canonical_metadata_def written_metadata_def get_prop_present and_then_def)

lemma canonical_doc_present:
  "present (metadata (snd entry)) \<Longrightarrow> canonical_doc entry = Inr (written_entry entry)"
  by (simp add: canonical_doc_def canonical_metadata_present and_then_def written_document_def
        written_entry_def)

lemma map_exn_all:
  "(\<And>x. x \<in> set xs \<Longrightarrow> f x = Inr (g x)) \<Longrightarrow> map_exn f xs = Inr (map g xs)"
  by (induction xs) simp_all

lemma saveDocuments_written:
  assumes "list_all well_formed docs" and "\<not> denied ls" and "\<not> full ls"
  shows "saveDocuments docs now ls =
     ls\<lparr>items := (items ls)(KEY_documents \<mapsto> JSONText (written_documents docs now))\<rparr>"
proof -
  have "map_exn canonical_doc docs = Inr (map written_entry docs)"
    using assms(1)
    by (intro map_exn_all canonical_doc_present) (auto simp: list_all_iff well_formed_def)
  then show ?thesis
    using assms(2,3)
    by (simp add: saveDocuments_def saveDocuments_body_def and_then_def setItem_def JSON_stringify_def
          written_documents_def)
qed

lemma saveDocuments_refused:
  "denied ls \<or> full ls \<Longrightarrow> saveDocuments docs now ls = ls"
  by (auto simp: saveDocuments_def saveDocuments_body_def and_then_def setItem_def split: sum.splits)

lemma written_document_lookup:
  "map_of (properties (written_document doc)) ''docId'' = docId doc"
  "map_of (properties (written_document doc)) ''state'' = state doc"
  "map_of (properties (written_document doc)) ''metadata'' = Some (written_metadata (metadata doc))"
  "map_of (properties (written_document doc)) ''parsedArtifactId'' = parsedArtifactId doc"
  "map_of (properties (written_document doc)) ''parseError'' = parseError doc"
  by (simp_all add: written_document_def map_of_object_of split: option.splits)

lemma truthy_written_metadata: "truthy (Some (written_metadata m))"
  by (simp add: written_metadata_def object_of_def)

lemma validate_doc_written:
  assumes "well_formed (k, doc)"
  shows "validate_doc (written_entry (k, doc))
           = Inr (Some (element_of (plain k), loaded_document doc))"
proof -
  from assms obtain j where k: "plain k = Some j" "truthy (Some j)"
    by (cases "plain k") (auto simp: well_formed_def)
  have obj: "written_document doc = JObj (properties (written_document doc))"
    unfolding written_document_def by (rule object_of_is_object)
  have "validate_doc (JArr [j, JObj (properties (written_document doc))])
           = Inr (Some (j, loaded_document doc))"
    using assms k
    by (simp add: validate_doc_def and_then_def written_document_lookup truthy_written_metadata
          well_formed_def loaded_document_def)
  then show ?thesis
    using k obj by (simp add: written_entry_def array_of_def element_of_def)
qed


lemma map_filter_Some: "List.map_filter (\<lambda>x. x) (map (\<lambda>e. Some (g e)) xs) = map g xs"
  by (induction xs) simp_all

lemma version_current: "outdated T (Some (JNum STORAGE_VERSION)) = Inr False"
  by (simp add: STORAGE_VERSION_def)

lemma loadDocuments_saved:
  assumes "list_all well_formed docs" and "\<not> denied ls" and "\<not> full ls"
  shows "loadDocuments T (saveDocuments docs now ls) =
     (Some \<lparr>ld_documents = map (\<lambda>entry. (element_of (plain (fst entry)), loaded_document (snd entry))) docs,
            ld_timestamp = Some (JNum (of_nat now))\<rparr>,
      saveDocuments docs now ls)"
proof -
  have valid: "map_exn validate_doc (map written_entry docs)
       = Inr (map (\<lambda>entry. Some (element_of (plain (fst entry)), loaded_document (snd entry))) docs)"
    using assms(1)
  proof (induction docs)
    case Nil
    then show ?case by simp
  next
    case (Cons entry docs)
    then have "well_formed (fst entry, snd entry)" by simp
    from validate_doc_written [OF this] Cons show ?case by simp
  qed
  show ?thesis
    unfolding saveDocuments_written [OF assms]
    using assms(2) valid
    by (simp add: loadDocuments_def load_def load_body_def getItem_def and_then_def JSON_parse_def
          load_parsed_def object_of_def STORAGE_VERSION_def documents_of_def
          map_filter_Some written_documents_def)
qed


lemma plain_identify [simp]: "plain (identify a j) = Some j"
  by (cases j) simp_all


lemma restore_entry_created [simp]: "created (restore_entry st entry) = Suc (created st)"
  by (simp add: restore_entry_def)






lemma loaded_PARSING:
  assumes "state doc = Some PARSING"
  shows "state (restored_document (loaded_document doc) r) = Some PARSE_FAILED"
    and "parseError (restored_document (loaded_document doc) r) = Some INTERRUPTED"
    and "docId (restored_document (loaded_document doc) r) = docId doc"
  using assms
  by (simp_all add: restored_document_def loaded_document_def downgrade_parsed_def
        downgrade_parsing_def set_prop_def update_conv' written_document_lookup Let_def state_defs)



lemma toString_not_empty: "toString n \<noteq> []"
  by (subst toString.simps) simp

lemma truthy_present: "truthy v \<Longrightarrow> present v"
  by (cases v rule: truthy.cases) (simp_all add: present_def)

lemma valid_downgrade_parsed: "valid_properties ps \<Longrightarrow> valid_properties (downgrade_parsed ps)"
  by (simp add: valid_properties_def downgrade_parsed_def set_prop_def update_conv' state_defs)

lemma valid_downgrade_parsing: "valid_properties ps \<Longrightarrow> valid_properties (downgrade_parsing ps)"
  by (simp add: valid_properties_def downgrade_parsing_def set_prop_def update_conv' state_defs)

lemma get_prop_object: "get_prop (Some (JObj ps)) p = Inr (map_of ps p)"
  by simp

lemma validate_doc_SomeD:
  assumes "validate_doc entry = Inr (Some (j, ps))"
  shows "truthy (Some j) \<and> valid_properties ps"
proof -
  from assms obtain id' doc where d: "destructure entry = Inr (id', doc)"
    by (cases "destructure entry") (auto simp: validate_doc_def and_then_def)
  from assms d have t: "truthy id'" "truthy doc"
    by (auto simp: validate_doc_def and_then_def split: if_splits)
  from assms d t obtain ps0 where doc: "doc = Some (JObj ps0)" and id': "id' = Some j"
    and ps: "ps = downgrade_parsing (downgrade_parsed ps0)"
    by (cases "(id', doc)" rule: repaired.cases)
       (auto simp: validate_doc_def and_then_def split: if_splits sum.splits)
  from assms d t doc have "valid_properties ps0"
    by (auto simp: validate_doc_def and_then_def valid_properties_def split: if_splits)
  with t id' ps show ?thesis
    by (simp add: valid_downgrade_parsed valid_downgrade_parsing)
qed

lemma map_exn_InrD:
  "map_exn f xs = Inr ys \<Longrightarrow> y \<in> set ys \<Longrightarrow> \<exists>x \<in> set xs. f x = Inr y"
  by (induction xs arbitrary: ys) (auto split: sum.splits)

lemma in_map_filter_id: "x \<in> set (List.map_filter (\<lambda>x. x) xs) \<Longrightarrow> Some x \<in> set xs"
  by (induction xs) (auto split: option.splits)

lemma validated_documents_valid:
  assumes "validated_documents data docs = Inr (Some saved)" and "(j, ps) \<in> set (ld_documents saved)"
  shows "truthy (Some j) \<and> valid_properties ps"
proof -
  from assms(1) obtain entries where docs: "docs = Some (JArr entries)"
    by (cases "(data, docs)" rule: validated_documents.cases) auto
  with assms(1) obtain validDocs where v: "map_exn validate_doc entries = Inr validDocs"
    and saved: "ld_documents saved = List.map_filter (\<lambda>x. x) validDocs"
    by (auto simp: and_then_def split: sum.splits)
  from assms(2) saved have "Some (j, ps) \<in> set validDocs"
    by (simp add: in_map_filter_id)
  from map_exn_InrD [OF v this] show ?thesis
    by (auto dest: validate_doc_SomeD)
qed

lemma load_SomeD:
  assumes "load key validated T ls = (Some r, ls')"
  shows "\<exists>data. validated data = Inr (Some r)"
proof -
  from assms have "load_body key validated T ls = Inr (Some r, ls')"
    by (auto simp: load_def split: sum.splits)
  then have s: "load_saved key validated T ls (items ls key) = Inr (Some r, ls')"
    by (auto simp: load_body_def getItem_def and_then_def split: if_splits)
  then obtain saved where "items ls key = Some saved"
    by (cases "items ls key") auto
  with s have "and_then (JSON_parse saved) (load_parsed key validated T ls) = Inr (Some r, ls')"
    by simp
  then obtain data where "load_parsed key validated T ls data = Inr (Some r, ls')"
    by (cases saved) (auto simp: JSON_parse_def and_then_def)
  then show ?thesis
    by (auto simp: load_parsed_def and_then_def split: sum.splits if_splits)
qed

lemma loadDocuments_valid:
  assumes "loadDocuments T ls = (Some saved, ls')" and "(j, ps) \<in> set (ld_documents saved)"
  shows "truthy (Some j) \<and> valid_properties ps"
proof -
  from load_SomeD [OF assms(1) [unfolded loadDocuments_def]]
  obtain data where "documents_of data = Inr (Some saved)" by auto
  then obtain docs where "validated_documents data docs = Inr (Some saved)"
    by (auto simp: documents_of_def and_then_def split: sum.splits)
  from validated_documents_valid [OF this assms(2)] show ?thesis .
qed

lemma restored_well_formed:
  "truthy (Some j) \<Longrightarrow> valid_properties ps \<Longrightarrow> well_formed (identify a j, restored_document ps r)"
  by (simp add: well_formed_def valid_properties_def restored_document_def Let_def truthy_present
        state_defs)


lemma list_all_update:
  "list_all P al \<Longrightarrow> P (k, v) \<Longrightarrow> list_all P (AList.update k v al)"
  by (auto simp: list_all_iff dest!: in_updateD)

lemma store_invariant_update:
  "store_invariant st \<Longrightarrow> well_formed (k, doc) \<Longrightarrow>
   store_invariant (st\<lparr>documents := AList.update k doc (documents st)\<rparr>)"
  by (simp add: store_invariant_def list_all_update distinct_update)

lemma store_invariant_created [simp]:
  "store_invariant (st\<lparr>created := n\<rparr>) = store_invariant st"
  by (simp add: store_invariant_def)

lemma store_invariant_lookup:
  "store_invariant st \<Longrightarrow> map_of (documents st) k = Some doc \<Longrightarrow> well_formed (k, doc)"
  by (auto simp: store_invariant_def list_all_iff dest: map_of_SomeD)

lemma store_invariant_new: "store_invariant new_DocumentStore"
  by (simp add: store_invariant_def new_DocumentStore_def)

lemma store_invariant_addDocument:
  assumes "store_invariant st"
  shows "store_invariant (fst (snd (addDocument st ls f a b c)))"
proof -
  have "well_formed (Text (toString a),
      \<lparr>docId = Some (JStr (toString a)), state = Some UPLOADED,
       metadata = Some (object_of
         [(''name'', Some (JStr (file_name f))), (''size'', Some (JNum (of_nat (file_size f)))),
          (''type'', Some (JStr (file_type f))), (''uploadedAt'', Some (JNum (of_nat b)))]),
       doc_file = Some f, parsedArtifactId = Some JNull, parseError = Some JNull,
       requiresReupload = False, ref = created st\<rparr>)"
    by (simp add: well_formed_def toString_not_empty state_defs present_def object_of_def)
  from store_invariant_update [OF assms this] show ?thesis
    by (simp add: addDocument_def Let_def)
qed

lemma store_invariant_reuploadDocument:
  assumes "store_invariant st"
  shows "store_invariant (fst (snd (reuploadDocument st ls k f now)))"
proof (cases "map_of (documents st) k")
  case None
  with assms show ?thesis by (simp add: reuploadDocument_def)
next
  case (Some doc)
  from store_invariant_lookup [OF assms Some]
  have "well_formed (k, doc\<lparr>doc_file := Some f, state := Some UPLOADED,
          parseError := Some JNull, requiresReupload := False\<rparr>)"
    by (simp add: well_formed_def state_defs)
  from store_invariant_update [OF assms this] Some show ?thesis
    by (simp add: reuploadDocument_def Let_def)
qed

lemma store_invariant_parseDocument:
  assumes "store_invariant st"
  shows "store_invariant (fst (snd (parseDocument st ls k now)))"
proof (cases "map_of (documents st) k")
  case None
  with assms show ?thesis by (simp add: parseDocument_def)
next
  case (Some doc)
  from store_invariant_lookup [OF assms Some]
  have "well_formed (k, doc\<lparr>state := Some REQUIRES_REUPLOAD\<rparr>)"
    and "well_formed (k, doc\<lparr>state := Some PARSING, parseError := Some JNull\<rparr>)"
    by (simp_all add: well_formed_def state_defs)
  with store_invariant_update [OF assms] assms Some show ?thesis
    by (simp add: parseDocument_def Let_def)
qed

lemma keys_assign:
  "map (fst \<circ> (\<lambda>(k, d). if ref d = r then (k, f d) else (k, d))) al = map fst al"
  by (induction al) auto

lemma store_invariant_assign:
  assumes "store_invariant st"
      and "\<And>d. docId (f d) = docId d \<and> metadata (f d) = metadata d \<and> truthy (state (f d))"
  shows "store_invariant (assign r f st)"
proof -
  from assms have "list_all well_formed
      (map (\<lambda>(k, d). if ref d = r then (k, f d) else (k, d)) (documents st))"
    by (auto simp: store_invariant_def list_all_iff well_formed_def split: if_splits)
  with assms(1) show ?thesis
    by (simp add: store_invariant_def assign_def keys_assign)
qed

lemma store_invariant_resume:
  assumes "store_invariant st"
  shows "store_invariant (fst (snd (parseDocument_resume st ls r resp now)))"
proof -
  have failed: "\<And>msg. store_invariant (fst (snd (parse_failed st ls r msg now)))"
    using assms by (simp add: parse_failed_def Let_def store_invariant_assign state_defs)
  show ?thesis
    using assms failed
    by (cases resp)
       (simp_all add: parseDocument_resume_def Let_def store_invariant_assign state_defs
          split: sum.splits)
qed

lemma store_invariant_restore_entries:
  "store_invariant st \<Longrightarrow>
   (\<And>j ps. (j, ps) \<in> set entries \<Longrightarrow> truthy (Some j) \<and> valid_properties ps) \<Longrightarrow>
   store_invariant (foldl restore_entry st entries)"
proof (induction entries arbitrary: st)
  case Nil
  then show ?case by simp
next
  case (Cons entry entries)
  from Cons.prems(2) [of "fst entry" "snd entry"]
  have "well_formed (identify (created st) (fst entry), restored_document (snd entry) (created st))"
    by (simp add: restored_well_formed)
  from store_invariant_update [OF Cons.prems(1) this]
  have "store_invariant (restore_entry st entry)"
    by (simp add: restore_entry_def)
  then show ?case
    using Cons.prems(2) by (simp, intro Cons.IH) auto
qed

lemma store_invariant_restore:
  assumes "store_invariant st"
  shows "store_invariant (fst (DocumentStore_restore T st ls))"
proof (cases "loadDocuments T ls")
  case (Pair saved ls')
  show ?thesis
  proof (cases saved)
    case None
    with Pair assms show ?thesis by (simp add: DocumentStore_restore_def)
  next
    case (Some r)
    with Pair have "\<And>j ps. (j, ps) \<in> set (ld_documents r) \<Longrightarrow> truthy (Some j) \<and> valid_properties ps"
      using loadDocuments_valid by blast
    from store_invariant_restore_entries [OF assms this] Pair Some show ?thesis
      by (simp add: DocumentStore_restore_def)
  qed
qed

lemma store_invariant_step:
  assumes "store_invariant (store sys)"
  shows "store_invariant (store (doc_step T sys ev))"
proof (cases ev)
  case (AddDocument f a b c)
  with store_invariant_addDocument [OF assms, of "storage sys" f a b c]
  show ?thesis by (simp add: case_prod_beta)
next
  case (ReuploadDocument k f now)
  with store_invariant_reuploadDocument [OF assms, of "storage sys" k f now]
  show ?thesis by (simp add: case_prod_beta)
next
  case (ParseDocument k now)
  with store_invariant_parseDocument [OF assms, of "storage sys" k now]
  show ?thesis by (simp add: case_prod_beta)
next
  case (Resume r resp now)
  with store_invariant_resume [OF assms, of "storage sys" r resp now] assms
  show ?thesis by (simp add: case_prod_beta)
next
  case Restore
  with store_invariant_restore [OF assms, of T "storage sys"]
  show ?thesis by (simp add: case_prod_beta)
next
  case Reload
  then show ?thesis by (simp add: store_invariant_new)
next
  case (Overwrite v)
  with assms show ?thesis by simp
next
  case (Environment d f)
  with assms show ?thesis by simp
qed

lemma store_invariant_run:
  "store_invariant (store sys) \<Longrightarrow> store_invariant (store (doc_run T sys events))"
  unfolding doc_run_def
  by (induction events arbitrary: sys) (simp_all add: store_invariant_step)





lemma an_array_keyed_substrate_holds:
  "loadDocuments T an_array_keyed_substrate =
     (Some \<lparr>ld_documents =
         [(JArr [JStr ''k''], loaded_document (a_document UPLOADED None JNull JNull))],
            ld_timestamp = Some (JNum 4)\<rparr>, an_array_keyed_substrate)"
proof -
  have "list_all well_formed [(Array 7 [JStr ''k''], a_document UPLOADED None JNull JNull)]"
    by (simp add: well_formed_def a_document_def present_def state_defs)
  from loadDocuments_saved [OF this, of empty_substrate T 4] show ?thesis
    by (simp add: an_array_keyed_substrate_def empty_substrate_def element_of_def)
qed

lemma an_array_keyed_store:
  "store (doc_run T (page_load an_array_keyed_substrate) an_array_keyed_history)
     = \<lparr>documents = [(Array 0 [JStr ''k''], a_document PARSING (Some a_file) JNull JNull)],
        created = 1\<rparr>"
  by (simp add: doc_run_def page_load_def an_array_keyed_history_def DocumentStore_restore_def
        an_array_keyed_substrate_holds reuploadDocument_def parseDocument_def started_def
        new_DocumentStore_def restore_entry_def restored_document_def loaded_document_def
        downgrade_parsed_def downgrade_parsing_def written_document_lookup Let_def state_defs
        a_document_def a_file_def written_metadata_def field_def object_of_def)

text \<open>
  Keys are compared as the \<^verbatim>\<open>Map\<close> compares them. A store whose one document sits
  under an array key, saved and restored into the same store, holds two documents: the
  array that \<^verbatim>\<open>JSON.parse\<close> made for the written key is a new one.
\<close>

lemma restore_keys_by_identity:
  "map (\<lambda>entry. (fst entry, state (snd entry)))
     (documents (fst (DocumentStore_restore T
        (store (doc_run T (page_load an_array_keyed_substrate) an_array_keyed_history))
        (saveDocuments
           (documents (store (doc_run T (page_load an_array_keyed_substrate) an_array_keyed_history)))
           7 empty_substrate))))
     = [(Array 0 [JStr ''k''], Some PARSING), (Array 1 [JStr ''k''], Some PARSE_FAILED)]"
proof -
  have "list_all well_formed [(Array 0 [JStr ''k''], a_document PARSING (Some a_file) JNull JNull)]"
    by (simp add: well_formed_def a_document_def present_def state_defs)
  from loadDocuments_saved [OF this, of empty_substrate T 7]
  have loaded: "loadDocuments T (saveDocuments
          [(Array 0 [JStr ''k''], a_document PARSING (Some a_file) JNull JNull)] 7 empty_substrate)
      = (Some \<lparr>ld_documents =
           [(JArr [JStr ''k''], loaded_document (a_document PARSING (Some a_file) JNull JNull))],
              ld_timestamp = Some (JNum 7)\<rparr>,
         saveDocuments [(Array 0 [JStr ''k''], a_document PARSING (Some a_file) JNull JNull)] 7
           empty_substrate)"
    by (simp add: empty_substrate_def element_of_def)
  have "state (a_document PARSING (Some a_file) JNull JNull) = Some PARSING"
    by (simp add: a_document_def)
  from loaded_PARSING(1) [OF this] show ?thesis
    by (simp add: an_array_keyed_store DocumentStore_restore_def loaded restore_entry_def Let_def)
      (simp add: a_document_def)
qed



lemma a_saved_substrate_holds:
  "loadDocuments T a_saved_substrate =
     (Some \<lparr>ld_documents =
         [(JStr ''1'', loaded_document (a_document PARSED (Some a_file) (JStr ''1'') JNull))],
            ld_timestamp = Some (JNum 4)\<rparr>, a_saved_substrate)"
proof -
  have "list_all well_formed [(Text ''1'', a_document PARSED (Some a_file) (JStr ''1'') JNull)]"
    by (simp add: well_formed_def a_document_def present_def state_defs)
  from loadDocuments_saved [OF this, of empty_substrate T 4] show ?thesis
    by (simp add: a_saved_substrate_def empty_substrate_def element_of_def)
qed

lemma a_restored_store:
  "store (doc_run T (page_load a_saved_substrate) [Restore])
     = a_store REQUIRES_REUPLOAD None (JStr ''1'') JNull"
  by (simp add: doc_run_def page_load_def DocumentStore_restore_def a_saved_substrate_holds
        new_DocumentStore_def restore_entry_def restored_document_def loaded_document_def
        downgrade_parsed_def downgrade_parsing_def written_document_lookup Let_def state_defs
        a_document_def a_store_def written_metadata_def field_def object_of_def)

text \<open>
  C8. For a known document without its file, \<^verbatim>\<open>parseDocument\<close> returns failure, sets
  the state of that document to REQUIRES_REUPLOAD and changes nothing else in the map,
  calls the codec's \<^verbatim>\<open>saveDocuments\<close> on the new map, and \<^verbatim>\<open>isQueryable\<close> is false for
  the id afterwards. This holds from every state of the document. What the save does
  to the substrate: when the store is one that a page can reach and the substrate
  accepts the write, the documents entry becomes the text of the new map, in which the
  object written for the document says \<^verbatim>\<open>state: 'REQUIRES_REUPLOAD'\<close>, and nothing
  else in the substrate changes; when the substrate refuses the write, it stays as it
  was.
\<close>

theorem parseDocument_without_file:
  assumes "map_of (documents st) docId' = Some doc" and "doc_file doc = None"
  shows "\<exists>st'. parseDocument st ls docId' now
               = (Returned False, st', saveDocuments (documents st') now ls)
          \<and> map_of (documents st')
               = (map_of (documents st))(docId' \<mapsto> doc\<lparr>state := Some REQUIRES_REUPLOAD\<rparr>)
          \<and> map fst (documents st') = map fst (documents st)
          \<and> \<not> isQueryable st' docId'
          \<and> (st = store (doc_run T (page_load ls0) events) \<and> \<not> denied ls \<and> \<not> full ls \<longrightarrow>
               saveDocuments (documents st') now ls
                 = ls\<lparr>items := (items ls)(KEY_documents \<mapsto>
                      JSONText (written_documents (documents st') now))\<rparr>
               \<and> get_prop (Some (written_documents (documents st') now)) ''documents''
                   = Inr (Some (JArr (map written_entry (documents st'))))
               \<and> (docId', doc\<lparr>state := Some REQUIRES_REUPLOAD\<rparr>) \<in> set (documents st')
               \<and> written_entry (docId', doc\<lparr>state := Some REQUIRES_REUPLOAD\<rparr>)
                   = JArr [element_of (plain docId'),
                           written_document (doc\<lparr>state := Some REQUIRES_REUPLOAD\<rparr>)]
               \<and> get_prop (Some (written_document (doc\<lparr>state := Some REQUIRES_REUPLOAD\<rparr>))) ''state''
                   = Inr (Some REQUIRES_REUPLOAD))
          \<and> (denied ls \<or> full ls \<longrightarrow> saveDocuments (documents st') now ls = ls)"
proof -
  let ?doc' = "doc\<lparr>state := Some REQUIRES_REUPLOAD\<rparr>"
  let ?st' = "st\<lparr>documents := AList.update docId' ?doc' (documents st)\<rparr>"
  have known: "docId' \<in> fst ` set (documents st)"
    using assms(1) by (metis domI dom_map_of_conv_image_fst)
  have call: "parseDocument st ls docId' now = (Returned False, ?st', saveDocuments (documents ?st') now ls)"
    using assms by (simp add: parseDocument_no_file)
  have lookup: "map_of (documents ?st') = (map_of (documents st))(docId' \<mapsto> ?doc')"
    by (simp add: update_conv')
  have keys: "map fst (documents ?st') = map fst (documents st)"
    using known by (simp add: update_keys)
  have unqueryable: "\<not> isQueryable ?st' docId'"
    by (simp add: isQueryable_def update_conv' state_defs)
  have refused: "saveDocuments (documents ?st') now ls = ls" if "denied ls \<or> full ls"
    using that by (rule saveDocuments_refused)
  have "written_document ?doc' = JObj (properties (written_document ?doc'))"
    unfolding written_document_def by (rule object_of_is_object)
  then have "get_prop (Some (written_document ?doc')) ''state''
      = Inr (map_of (properties (written_document ?doc')) ''state'')"
    by (metis get_prop.simps(3))
  then have state: "get_prop (Some (written_document ?doc')) ''state'' = Inr (Some REQUIRES_REUPLOAD)"
    by (simp add: written_document_lookup)
  have entry: "written_entry (docId', ?doc') = JArr [element_of (plain docId'), written_document ?doc']"
    by (simp add: written_entry_def array_of_def element_of_def)
  have array: "get_prop (Some (written_documents (documents ?st') now)) ''documents''
      = Inr (Some (JArr (map written_entry (documents ?st'))))"
    by (simp add: written_documents_def object_of_def)
  have member: "(docId', ?doc') \<in> set (documents ?st')"
    using lookup by (intro map_of_SomeD) simp
  have written: "saveDocuments (documents ?st') now ls
      = ls\<lparr>items := (items ls)(KEY_documents \<mapsto> JSONText (written_documents (documents ?st') now))\<rparr>"
    if reachable: "st = store (doc_run T (page_load ls0) events)" and "\<not> denied ls" and "\<not> full ls"
  proof -
    have inv: "store_invariant st"
      unfolding reachable by (rule store_invariant_run) (simp add: page_load_def store_invariant_new)
    from store_invariant_lookup [OF inv assms(1)]
    have "well_formed (docId', ?doc')"
      by (simp add: well_formed_def state_defs)
    from store_invariant_update [OF inv this]
    have "list_all well_formed (documents ?st')"
      by (simp add: store_invariant_def)
    from saveDocuments_written [OF this that(2,3)] show ?thesis .
  qed
  show ?thesis
    apply (rule exI [of _ ?st'])
    using call lookup keys unqueryable refused state entry array member written
    by blast
qed

theorem parseDocument_without_file_witness:
  "store (doc_run (\<lambda>v. Inr None) (page_load a_saved_substrate) [Restore])
     = a_store REQUIRES_REUPLOAD None (JStr ''1'') JNull
   \<and> (\<exists>st'. parseDocument (a_store REQUIRES_REUPLOAD None (JStr ''1'') JNull) empty_substrate
               (Text ''1'') 5
            = (Returned False, st', saveDocuments (documents st') 5 empty_substrate)
      \<and> map_option state (map_of (documents st') (Text ''1'')) = Some (Some REQUIRES_REUPLOAD)
      \<and> \<not> isQueryable st' (Text ''1'')
      \<and> items (saveDocuments (documents st') 5 empty_substrate) KEY_documents
          = Some (JSONText (JObj
              [(''version'', JNum 2),
               (''documents'', JArr [JArr [JStr ''1'', JObj
                  [(''docId'', JStr ''1''), (''state'', JStr ''REQUIRES_REUPLOAD''),
                   (''metadata'', JObj [(''name'', JStr ''report.txt''), (''size'', JNum 120),
                                        (''type'', JStr ''text/plain''), (''uploadedAt'', JNum 1)]),
                   (''parsedArtifactId'', JStr ''1''), (''parseError'', JNull)]]]),
               (''timestamp'', JNum 5)])))"
proof -
  have reachable: "store (doc_run (\<lambda>v. Inr None) (page_load a_saved_substrate) [Restore])
     = a_store REQUIRES_REUPLOAD None (JStr ''1'') JNull"
    by (simp add: a_restored_store)
  have there: "map_of (documents (a_store REQUIRES_REUPLOAD None (JStr ''1'') JNull)) (Text ''1'')
      = Some (a_document REQUIRES_REUPLOAD None (JStr ''1'') JNull)"
    and no_file: "doc_file (a_document REQUIRES_REUPLOAD None (JStr ''1'') JNull) = None"
    by (simp_all add: a_store_def a_document_def)
  from parseDocument_without_file [OF there no_file, of empty_substrate 5 "\<lambda>v. Inr None"
      a_saved_substrate "[Restore]"] reachable
  obtain st' where st': "parseDocument (a_store REQUIRES_REUPLOAD None (JStr ''1'') JNull)
        empty_substrate (Text ''1'') 5
      = (Returned False, st', saveDocuments (documents st') 5 empty_substrate)"
    and lookup: "map_of (documents st')
      = (map_of (documents (a_store REQUIRES_REUPLOAD None (JStr ''1'') JNull)))
          (Text ''1'' \<mapsto> (a_document REQUIRES_REUPLOAD None (JStr ''1'') JNull)
             \<lparr>state := Some REQUIRES_REUPLOAD\<rparr>)"
    and unqueryable: "\<not> isQueryable st' (Text ''1'')"
    and saved: "saveDocuments (documents st') 5 empty_substrate
      = empty_substrate\<lparr>items := (items empty_substrate)(KEY_documents \<mapsto>
           JSONText (written_documents (documents st') 5))\<rparr>"
    by (auto simp: empty_substrate_def)
  have "fst (snd (parseDocument (a_store REQUIRES_REUPLOAD None (JStr ''1'') JNull)
        empty_substrate (Text ''1'') 5)) = a_store REQUIRES_REUPLOAD None (JStr ''1'') JNull"
    by (simp add: parseDocument_def a_store_def a_document_def Let_def)
  with st' have "st' = a_store REQUIRES_REUPLOAD None (JStr ''1'') JNull"
    by simp
  then have "written_documents (documents st') 5
      = JObj [(''version'', JNum 2),
               (''documents'', JArr [JArr [JStr ''1'', JObj
                  [(''docId'', JStr ''1''), (''state'', JStr ''REQUIRES_REUPLOAD''),
                   (''metadata'', JObj [(''name'', JStr ''report.txt''), (''size'', JNum 120),
                                        (''type'', JStr ''text/plain''), (''uploadedAt'', JNum 1)]),
                   (''parsedArtifactId'', JStr ''1''), (''parseError'', JNull)]]]),
               (''timestamp'', JNum 5)]"
    by (simp add: written_documents_def written_entry_def written_document_def written_metadata_def
          object_of_def array_of_def element_of_def a_document_def a_store_def field_def
          STORAGE_VERSION_def state_defs)
  with reachable st' lookup unqueryable saved show ?thesis
    by auto
qed

section \<open>From a restore to the next successful parse\<close>

lemma refs_update_subset:
  "(\<lambda>e. ref (snd e)) ` set (AList.update k v al) \<subseteq> insert (ref v) ((\<lambda>e. ref (snd e)) ` set al)"
  using set_update_subset [of k v al] by force

lemma refs_update_fresh:
  "distinct (map (\<lambda>e. ref (snd e)) al) \<Longrightarrow> ref v \<notin> (\<lambda>e. ref (snd e)) ` set al \<Longrightarrow>
   distinct (map (\<lambda>e. ref (snd e)) (AList.update k v al))"
proof (induction al)
  case Nil
  then show ?case by simp
next
  case (Cons a al)
  show ?case
  proof (cases "fst a = k")
    case True
    with Cons.prems show ?thesis by simp
  next
    case False
    from Cons.prems have "ref (snd a) \<notin> insert (ref v) ((\<lambda>e. ref (snd e)) ` set al)"
      by auto
    with refs_update_subset [of k v al]
    have "ref (snd a) \<notin> (\<lambda>e. ref (snd e)) ` set (AList.update k v al)"
      by blast
    moreover from Cons have "distinct (map (\<lambda>e. ref (snd e)) (AList.update k v al))"
      by simp
    ultimately show ?thesis
      using False by simp
  qed
qed

lemma refs_update_same:
  "map_of al k = Some d \<Longrightarrow> ref v = ref d \<Longrightarrow>
   map (\<lambda>e. ref (snd e)) (AList.update k v al) = map (\<lambda>e. ref (snd e)) al"
proof (induction al)
  case Nil
  then show ?case by simp
next
  case (Cons a al)
  show ?case
  proof (cases "fst a = k")
    case True
    with Cons.prems show ?thesis by (cases a) simp
  next
    case False
    with Cons show ?thesis by (cases a) simp
  qed
qed

lemma refs_assign:
  "(\<And>d. ref (f d) = ref d) \<Longrightarrow>
   map (\<lambda>e. ref (snd e)) (map (\<lambda>(k, d). if ref d = r then (k, f d) else (k, d)) al)
     = map (\<lambda>e. ref (snd e)) al"
  by (induction al) auto





lemma references_ok_create:
  assumes "references_ok st waiting" and "ref doc = created st"
  shows "references_ok (st\<lparr>documents := AList.update k doc (documents st),
                             created := Suc (created st)\<rparr>) waiting"
proof -
  from assms have fresh: "ref doc \<notin> (\<lambda>e. ref (snd e)) ` set (documents st)"
    by (auto simp: references_ok_def list_all_iff)
  from assms have "list_all (\<lambda>entry. ref (snd entry) < Suc (created st))
      (AList.update k doc (documents st))"
    by (auto simp: references_ok_def list_all_iff dest!: in_updateD)
  moreover from assms fresh
  have "distinct (map (\<lambda>e. ref (snd e)) (AList.update k doc (documents st)))"
    by (simp add: references_ok_def refs_update_fresh)
  moreover from assms have "list_all (\<lambda>r. r < Suc (created st)) waiting"
    by (auto simp: references_ok_def list_all_iff)
  ultimately show ?thesis by (simp add: references_ok_def)
qed

lemma references_ok_modify:
  assumes "references_ok st waiting" and "map_of (documents st) k = Some d" and "ref doc = ref d"
  shows "references_ok (st\<lparr>documents := AList.update k doc (documents st)\<rparr>) waiting"
proof -
  from assms(2) have "(k, d) \<in> set (documents st)" by (rule map_of_SomeD)
  with assms have "list_all (\<lambda>entry. ref (snd entry) < created st)
      (AList.update k doc (documents st))"
    by (auto simp: references_ok_def list_all_iff dest!: in_updateD)
  with assms show ?thesis
    by (simp add: references_ok_def refs_update_same)
qed

lemma references_ok_assign:
  assumes "references_ok st waiting" and "\<And>d. ref (f d) = ref d"
  shows "references_ok (assign r f st) waiting"
proof -
  have "list_all (\<lambda>entry. ref (snd entry) < created st)
          (map (\<lambda>(k, d). if ref d = r then (k, f d) else (k, d)) (documents st))"
    using assms by (auto simp: references_ok_def list_all_iff)
  moreover have "distinct (map (\<lambda>e. ref (snd e))
          (map (\<lambda>(k, d). if ref d = r then (k, f d) else (k, d)) (documents st)))"
    using assms by (simp only: refs_assign) (simp add: references_ok_def)
  ultimately show ?thesis
    using assms(1) by (simp only: references_ok_def assign_def) simp
qed

lemma references_ok_fewer:
  "references_ok st waiting \<Longrightarrow> set waiting' \<subseteq> set waiting \<Longrightarrow> references_ok st waiting'"
  by (auto simp: references_ok_def list_all_iff)

lemma references_ok_more:
  "references_ok st waiting \<Longrightarrow> r < created st \<Longrightarrow> references_ok st (r # waiting)"
  by (simp add: references_ok_def)

lemma references_ok_restore_entry:
  "references_ok st waiting \<Longrightarrow> references_ok (restore_entry st entry) waiting"
proof -
  assume ok: "references_ok st waiting"
  have "ref (restored_document (snd entry) (created st)) = created st"
    by (simp add: restored_document_def Let_def)
  from references_ok_create [OF ok this] show ?thesis
    by (simp add: restore_entry_def)
qed

lemma references_ok_restore_entries:
  "references_ok st waiting \<Longrightarrow> references_ok (foldl restore_entry st entries) waiting"
  by (induction entries arbitrary: st) (simp_all add: references_ok_restore_entry)

lemma references_ok_restore:
  "references_ok st waiting \<Longrightarrow> references_ok (fst (DocumentStore_restore T st ls)) waiting"
  by (simp add: DocumentStore_restore_def references_ok_restore_entries
        split: prod.splits option.splits)


lemma references_invariant_step:
  assumes "references_invariant sys"
  shows "references_invariant (doc_step T sys ev)"
proof -
  from assms have ok: "references_ok (store sys) (pending sys)"
    by (simp add: references_invariant_def)
  show ?thesis
  proof (cases ev)
    case (AddDocument f a b c)
    from references_ok_create [OF ok, of _ "Text (toString a)"] AddDocument
    show ?thesis
      by (simp add: references_invariant_def addDocument_def Let_def)
  next
    case (ReuploadDocument k f now)
    show ?thesis
    proof (cases "map_of (documents (store sys)) k")
      case None
      with ok ReuploadDocument show ?thesis
        by (simp add: references_invariant_def reuploadDocument_def)
    next
      case (Some d)
      from references_ok_modify [OF ok Some] Some ReuploadDocument show ?thesis
        by (simp add: references_invariant_def reuploadDocument_def Let_def)
    qed
  next
    case (ParseDocument k now)
    show ?thesis
    proof (cases "map_of (documents (store sys)) k")
      case None
      with ok ParseDocument show ?thesis
        by (simp add: references_invariant_def parseDocument_def started_def)
    next
      case (Some d)
      then have "(k, d) \<in> set (documents (store sys))" by (rule map_of_SomeD)
      with ok have r: "ref d < created (store sys)"
        by (auto simp: references_ok_def list_all_iff)
      from references_ok_modify [OF ok Some, of "d\<lparr>state := Some REQUIRES_REUPLOAD\<rparr>"]
      have a: "references_ok (store sys\<lparr>documents := AList.update k
          (d\<lparr>state := Some REQUIRES_REUPLOAD\<rparr>) (documents (store sys))\<rparr>) (pending sys)"
        by simp
      from references_ok_modify [OF ok Some, of "d\<lparr>state := Some PARSING, parseError := Some JNull\<rparr>"]
      have "references_ok (store sys\<lparr>documents := AList.update k
          (d\<lparr>state := Some PARSING, parseError := Some JNull\<rparr>) (documents (store sys))\<rparr>)
          (pending sys)"
        by simp
      from references_ok_more [OF this, of "ref d"] r
      have b: "references_ok (store sys\<lparr>documents := AList.update k
          (d\<lparr>state := Some PARSING, parseError := Some JNull\<rparr>) (documents (store sys))\<rparr>)
          (ref d # pending sys)"
        by simp
      from a b ok Some ParseDocument show ?thesis
        by (simp add: references_invariant_def parseDocument_def started_def Let_def)
    qed
  next
    case (Resume r resp now)
    show ?thesis
    proof (cases "r \<in> set (pending sys)")
      case False
      with assms Resume show ?thesis by simp
    next
      case True
      have fewer: "set (remove1 r (pending sys)) \<subseteq> set (pending sys)"
        by (rule set_remove1_subset)
      have "references_ok (fst (snd (parseDocument_resume (store sys) (storage sys) r resp now)))
          (pending sys)"
        using ok
        by (cases resp)
           (simp_all add: parseDocument_resume_def parse_failed_def Let_def references_ok_assign
              split: sum.splits)
      from references_ok_fewer [OF this fewer] True Resume show ?thesis
        by (simp add: references_invariant_def case_prod_beta)
    qed
  next
    case Restore
    with references_ok_restore [OF ok, of T "storage sys"] show ?thesis
      by (simp add: references_invariant_def case_prod_beta)
  next
    case Reload
    then show ?thesis
      by (simp add: references_invariant_def references_ok_def new_DocumentStore_def)
  next
    case (Overwrite v)
    with ok show ?thesis by (simp add: references_invariant_def)
  next
    case (Environment d f)
    with ok show ?thesis by (simp add: references_invariant_def)
  qed
qed


lemma ref_restored: "ref (restored_document ps r) = r"
  by (simp add: restored_document_def Let_def)



lemma references_invariant_run:
  "references_invariant sys \<Longrightarrow> references_invariant (doc_run T sys events)"
  unfolding doc_run_def
  by (induction events arbitrary: sys) (simp_all add: references_invariant_step)

lemma resume_result:
  "parseDocument_resume st ls r resp now = (ok, st', ls') \<Longrightarrow>
   (ok \<and> (\<exists>artifact. st' = assign r (\<lambda>d. d\<lparr>parsedArtifactId := artifact, state := Some PARSED\<rparr>) st))
   \<or> (\<not> ok \<and> (\<exists>msg. st' = assign r (\<lambda>d. d\<lparr>state := Some PARSE_FAILED, parseError := Some (JStr msg)\<rparr>) st))"
  by (cases resp)
     (auto simp: parseDocument_resume_def parse_failed_def Let_def split: sum.splits)







lemma fresh_not_pending:
  "references_ok st waiting \<Longrightarrow> created st \<le> r \<Longrightarrow> r \<notin> set waiting"
  by (auto simp: references_ok_def list_all_iff)











lemma restore_on_page_load:
  "store (doc_step T (page_load ls) Restore) = fst (DocumentStore_restore T new_DocumentStore ls)"
  by (simp add: page_load_def case_prod_beta)






section \<open>parseDocument on a PARSED document\<close>

lemma restore_entries_from:
  "(k, d) \<in> set (documents (foldl restore_entry st entries)) \<Longrightarrow>
   (k, d) \<in> set (documents st) \<or> (\<exists>ps r. d = restored_document ps r \<and> created st \<le> r)"
proof (induction entries arbitrary: st)
  case Nil
  then show ?case by simp
next
  case (Cons entry entries)
  from Cons.prems have "(k, d) \<in> set (documents (foldl restore_entry (restore_entry st entry) entries))"
    by simp
  from Cons.IH [OF this] show ?case
  proof
    assume "(k, d) \<in> set (documents (restore_entry st entry))"
    then show ?thesis
      by (auto simp: restore_entry_def dest!: in_updateD)
  next
    assume "\<exists>ps r. d = restored_document ps r \<and> created (restore_entry st entry) \<le> r"
    then obtain ps r where d: "d = restored_document ps r"
      and "created (restore_entry st entry) \<le> r"
      by blast
    then have "created st \<le> r" by simp
    with d show ?thesis by blast
  qed
qed

lemma restore_from:
  assumes "(k, d) \<in> set (documents (fst (DocumentStore_restore T st ls)))"
  shows "(k, d) \<in> set (documents st) \<or> (\<exists>ps r. d = restored_document ps r \<and> created st \<le> r)"
proof (cases "loadDocuments T ls")
  case (Pair saved ls')
  show ?thesis
  proof (cases saved)
    case None
    with Pair assms show ?thesis by (simp add: DocumentStore_restore_def)
  next
    case (Some r)
    with Pair assms show ?thesis
      by (simp add: DocumentStore_restore_def restore_entries_from)
  qed
qed

lemma same_object:
  assumes "distinct (map (\<lambda>e. ref (snd e)) al)" and "(k, d) \<in> set al" and "(k', d') \<in> set al"
      and "ref d' = ref d"
  shows "d' = d"
proof -
  from assms(1) have "inj_on (\<lambda>e. ref (snd e)) (set al)"
    by (simp add: distinct_map)
  from inj_onD [OF this, of "(k', d')" "(k, d)"] assms(2-4) show ?thesis by simp
qed

lemma file_invariant_I:
  assumes "references_invariant sys"
      and "\<And>k d. (k, d) \<in> set (documents (store sys)) \<Longrightarrow>
             state d = Some PARSED \<or> ref d \<in> set (pending sys) \<Longrightarrow> doc_file d \<noteq> None"
  shows "file_invariant sys"
  using assms by (auto simp: file_invariant_def list_all_iff)

lemma file_invariant_D:
  assumes "file_invariant sys" and "(k, d) \<in> set (documents (store sys))"
      and "state d = Some PARSED \<or> ref d \<in> set (pending sys)"
  shows "doc_file d \<noteq> None"
  using assms by (auto simp: file_invariant_def list_all_iff)

lemma file_invariant_step:
  assumes inv: "file_invariant sys"
  shows "file_invariant (doc_step T sys ev)"
proof (rule file_invariant_I)
  from inv have refs: "references_invariant sys" by (simp add: file_invariant_def)
  then show "references_invariant (doc_step T sys ev)" by (rule references_invariant_step)
  from refs have ok: "references_ok (store sys) (pending sys)"
    by (simp add: references_invariant_def)
  then have distinct: "distinct (map (\<lambda>e. ref (snd e)) (documents (store sys)))"
    by (simp add: references_ok_def)
  note D = file_invariant_D [OF inv]
  fix k d
  assume mem: "(k, d) \<in> set (documents (store (doc_step T sys ev)))"
    and held: "state d = Some PARSED \<or> ref d \<in> set (pending (doc_step T sys ev))"
  show "doc_file d \<noteq> None"
  proof (cases ev)
    case (AddDocument f a b c)
    with mem have "doc_file d = Some f \<or> (k, d) \<in> set (documents (store sys))"
      by (auto simp: addDocument_def Let_def dest!: in_updateD)
    with D [of k d] held AddDocument show ?thesis
      by (auto simp: case_prod_beta)
  next
    case (ReuploadDocument k' f now)
    with mem have "doc_file d = Some f \<or> (k, d) \<in> set (documents (store sys))"
      by (auto simp: reuploadDocument_def Let_def split: option.splits dest!: in_updateD)
    with D [of k d] held ReuploadDocument show ?thesis
      by (auto simp: case_prod_beta)
  next
    case (ParseDocument k' now)
    show ?thesis
    proof (cases "map_of (documents (store sys)) k'")
      case None
      with mem held ParseDocument D [of k d] show ?thesis
        by (simp add: parseDocument_def started_def)
    next
      case (Some d')
      then have old: "(k', d') \<in> set (documents (store sys))" by (rule map_of_SomeD)
      show ?thesis
      proof (cases "doc_file d' = None")
        case True
        from D [OF old] True have free: "state d' \<noteq> Some PARSED" "ref d' \<notin> set (pending sys)"
          by auto
        from mem ParseDocument Some True
        have "d = d'\<lparr>state := Some REQUIRES_REUPLOAD\<rparr> \<or> (k, d) \<in> set (documents (store sys))"
          by (auto simp: parseDocument_def Let_def dest!: in_updateD)
        then show ?thesis
        proof
          assume "d = d'\<lparr>state := Some REQUIRES_REUPLOAD\<rparr>"
          with held free ParseDocument Some True show ?thesis
            by (simp add: parseDocument_def started_def Let_def state_defs)
        next
          assume "(k, d) \<in> set (documents (store sys))"
          with D [of k d] held ParseDocument Some True show ?thesis
            by (simp add: parseDocument_def started_def Let_def)
        qed
      next
        case False
        show ?thesis
        proof (cases "state d' = Some UPLOADED")
          case unstarted: False
          with mem held ParseDocument Some False D [of k d] show ?thesis
            by (simp add: parseDocument_def started_def)
        next
          case True
          from mem ParseDocument Some False True
          have "d = d'\<lparr>state := Some PARSING, parseError := Some JNull\<rparr>
              \<or> (k, d) \<in> set (documents (store sys))"
            by (auto simp: parseDocument_def Let_def dest!: in_updateD)
          then show ?thesis
          proof
            assume "d = d'\<lparr>state := Some PARSING, parseError := Some JNull\<rparr>"
            with False show ?thesis by simp
          next
            assume m: "(k, d) \<in> set (documents (store sys))"
            from held ParseDocument Some False True
            have "state d = Some PARSED \<or> ref d = ref d' \<or> ref d \<in> set (pending sys)"
              by (auto simp: parseDocument_def started_def Let_def)
            then show ?thesis
            proof (elim disjE)
              assume "ref d = ref d'"
              from same_object [OF distinct old m this] False show ?thesis by simp
            qed (use D [OF m] in auto)
          qed
        qed
      qed
    qed
  next
    case (Resume r resp now)
    show ?thesis
    proof (cases "r \<in> set (pending sys)")
      case False
      with mem held Resume D [of k d] show ?thesis by simp
    next
      case True
      obtain ok st' ls' where res: "parseDocument_resume (store sys) (storage sys) r resp now
          = (ok, st', ls')"
        by (cases "parseDocument_resume (store sys) (storage sys) r resp now") auto
      from resume_result [OF res] obtain f where st': "st' = assign r f (store sys)"
        and f: "\<And>d. doc_file (f d) = doc_file d \<and> ref (f d) = ref d"
        by (elim disjE conjE exE) (rule that, assumption, simp)+
      from mem Resume True res st'
      obtain d0 where old: "(k, d0) \<in> set (documents (store sys))"
        and d: "d = (if ref d0 = r then f d0 else d0)"
        by (auto simp: assign_def split: if_splits)
      have fewer: "set (remove1 r (pending sys)) \<subseteq> set (pending sys)"
        by (rule set_remove1_subset)
      show ?thesis
      proof (cases "ref d0 = r")
        case same: True
        with D [OF old] True have "doc_file d0 \<noteq> None" by simp
        with d same f show ?thesis by simp
      next
        case other: False
        with d have "d = d0" by simp
        with held Resume True res fewer D [OF old] show ?thesis
          by auto
      qed
    qed
  next
    case Restore
    with mem have "(k, d) \<in> set (documents (fst (DocumentStore_restore T (store sys) (storage sys))))"
      by (simp add: case_prod_beta)
    from restore_from [OF this] show ?thesis
    proof
      assume "(k, d) \<in> set (documents (store sys))"
      with D [of k d] held Restore show ?thesis by (simp add: case_prod_beta)
    next
      assume "\<exists>ps r. d = restored_document ps r \<and> created (store sys) \<le> r"
      then obtain ps r where d: "d = restored_document ps r" and r: "created (store sys) \<le> r"
        by blast
      from fresh_not_pending [OF ok r] d held Restore show ?thesis
        by (simp add: case_prod_beta restored_not_PARSED ref_restored)
    qed
  next
    case Reload
    with mem show ?thesis by (simp add: new_DocumentStore_def)
  next
    case (Overwrite v)
    with mem held D [of k d] show ?thesis by simp
  next
    case (Environment d' f)
    with mem held D [of k d] show ?thesis by simp
  qed
qed

lemma file_invariant_run:
  "file_invariant sys \<Longrightarrow> file_invariant (doc_run T sys events)"
  unfolding doc_run_def
  by (induction events arbitrary: sys) (simp_all add: file_invariant_step)

lemma file_invariant_page_load: "file_invariant (page_load ls)"
  by (simp add: file_invariant_def references_invariant_def references_ok_def page_load_def
        new_DocumentStore_def)

text \<open>
  C7. Take a store that a page can reach by any sequence of events, and a document of
  it in state PARSED. Then the document has its file (the state PARSED is only given to
  a document that a waiting parse call holds, which has its file, and a \<^verbatim>\<open>restore\<close>
  never yields PARSED), and \<^verbatim>\<open>parseDocument\<close> on its id returns failure and changes
  nothing: the store and the substrate are the same afterwards, and so are the state and
  the artifact id of the document.
\<close>

theorem parseDocument_on_PARSED:
  assumes "map_of (documents (store (doc_run T (page_load ls0) events))) docId' = Some doc"
      and "state doc = Some PARSED"
  shows "doc_file doc \<noteq> None
       \<and> parseDocument (store (doc_run T (page_load ls0) events))
             (storage (doc_run T (page_load ls0) events)) docId' now
           = (Returned False, store (doc_run T (page_load ls0) events),
              storage (doc_run T (page_load ls0) events))
       \<and> map_option state (getDocument (fst (snd (parseDocument
             (store (doc_run T (page_load ls0) events))
             (storage (doc_run T (page_load ls0) events)) docId' now))) docId')
           = Some (Some PARSED)
       \<and> map_option parsedArtifactId (getDocument (fst (snd (parseDocument
             (store (doc_run T (page_load ls0) events))
             (storage (doc_run T (page_load ls0) events)) docId' now))) docId')
           = Some (parsedArtifactId doc)"
proof -
  have "file_invariant (doc_run T (page_load ls0) events)"
    by (rule file_invariant_run) (rule file_invariant_page_load)
  from file_invariant_D [OF this map_of_SomeD [OF assms(1)]] assms(2)
  obtain f where f: "doc_file doc = Some f" by auto
  from parseDocument_refused [OF assms(1) f, of "storage (doc_run T (page_load ls0) events)" now]
    assms f
  show ?thesis
    by (simp add: getDocument_def state_defs)
qed

theorem parseDocument_on_PARSED_witness:
  "map_of (documents (store (doc_run (\<lambda>v. Inr None) (page_load empty_substrate) a_history)))
       (Text ''1'') = Some (a_document PARSED (Some a_file) (JStr ''1'') JNull)
   \<and> parseDocument (store (doc_run (\<lambda>v. Inr None) (page_load empty_substrate) a_history))
         (storage (doc_run (\<lambda>v. Inr None) (page_load empty_substrate) a_history)) (Text ''1'') 5
       = (Returned False, store (doc_run (\<lambda>v. Inr None) (page_load empty_substrate) a_history),
          storage (doc_run (\<lambda>v. Inr None) (page_load empty_substrate) a_history))
   \<and> map_option parsedArtifactId (getDocument (fst (snd (parseDocument
         (store (doc_run (\<lambda>v. Inr None) (page_load empty_substrate) a_history))
         (storage (doc_run (\<lambda>v. Inr None) (page_load empty_substrate) a_history)) (Text ''1'') 5)))
         (Text ''1''))
       = Some (Some (JStr ''1''))"
proof -
  have there: "map_of (documents (store (doc_run (\<lambda>v. Inr None) (page_load empty_substrate) a_history)))
       (Text ''1'') = Some (a_document PARSED (Some a_file) (JStr ''1'') JNull)"
    by (simp add: a_history_store)
  have parsed: "state (a_document PARSED (Some a_file) (JStr ''1'') JNull) = Some PARSED"
    by (simp add: a_document_def)
  have artifact: "parsedArtifactId (a_document PARSED (Some a_file) (JStr ''1'') JNull) = Some (JStr ''1'')"
    by (simp add: a_document_def)
  from parseDocument_on_PARSED [OF there parsed, of 5] there show ?thesis
    unfolding artifact by blast
qed

section \<open>The active document of a session\<close>

lemma saved_session:
  "saveSessions [(Text ''1'', a_session)] (Text ''1'') now empty_substrate
     = empty_substrate\<lparr>items := (items empty_substrate)(KEY_sessions \<mapsto> JSONText (JObj
         [(''version'', JNum 2),
          (''sessions'', JArr [JArr [JStr ''1'', JObj a_saved_session]]),
          (''activeSessionId'', JStr ''1''),
          (''timestamp'', JNum (of_nat now))]))\<rparr>"
  by (simp add: saveSessions_def saveSessions_body_def setItem_def JSON_stringify_def object_of_def
        canonical_session_def array_of_def element_of_def a_session_def a_saved_session_def
        empty_substrate_def STORAGE_VERSION_def ACTIVE_def)

lemma loaded_session:
  assumes "items ls KEY_sessions = Some (JSONText (JObj
         [(''version'', JNum 2),
          (''sessions'', JArr [JArr [JStr ''1'', JObj a_saved_session]]),
          (''activeSessionId'', JStr ''1''),
          (''timestamp'', JNum t)]))"
      and "\<not> denied ls"
  shows "loadSessions T ls
     = (Some \<lparr>ls_sessions = [(JStr ''1'', a_saved_session)],
               ls_activeSessionId = Some (JStr ''1''), ls_timestamp = Some (JNum t)\<rparr>, ls)"
  using assms
  by (simp add: loadSessions_def load_def load_body_def getItem_def and_then_def JSON_parse_def
        load_parsed_def STORAGE_VERSION_def sessions_of_def validate_session_def
        a_saved_session_def List.map_filter_def)

text \<open>
  C4. The claim: save followed by load reproduces the canonical fields of a session, in
  particular its \<^verbatim>\<open>activeDocumentId\<close>. The code: \<^verbatim>\<open>saveSessions\<close> writes \<^verbatim>\<open>sessionId\<close>,
  \<^verbatim>\<open>name\<close>, \<^verbatim>\<open>state\<close>, \<^verbatim>\<open>activeDocumentIds\<close> and \<^verbatim>\<open>createdAt\<close> of a session and leaves
  \<^verbatim>\<open>activeDocumentId\<close> out. The session \<open>a_session\<close> has the documents \<^verbatim>\<open>d1\<close> and \<^verbatim>\<open>d2\<close>
  and the active document \<^verbatim>\<open>d1\<close>; what \<^verbatim>\<open>loadSessions\<close> returns after
  \<^verbatim>\<open>saveSessions\<close> is the object \<open>a_saved_session\<close>, which has no \<^verbatim>\<open>activeDocumentId\<close>,
  and the session that \<^verbatim>\<open>restore\<close> makes of it has the two documents and the active
  document \<^verbatim>\<open>undefined\<close>.
\<close>

theorem saveSessions_leaves_out_activeDocumentId:
  "activeDocumentIds a_session = [Text ''d1'', Text ''d2'']
   \<and> activeDocumentId a_session = Text ''d1''
   \<and> fst (loadSessions (\<lambda>v. Inr None)
        (saveSessions [(Text ''1'', a_session)] (Text ''1'') 5 empty_substrate))
       = Some \<lparr>ls_sessions = [(JStr ''1'', a_saved_session)],
               ls_activeSessionId = Some (JStr ''1''), ls_timestamp = Some (JNum 5)\<rparr>
   \<and> map_of a_saved_session ''activeDocumentId'' = None
   \<and> selections (fst (SessionStore_restore (\<lambda>v. Inr None) new_SessionStore
        (saveSessions [(Text ''1'', a_session)] (Text ''1'') 5 empty_substrate)))
       = [(Text ''1'', [Text ''d1'', Text ''d2''], Undefined)]"
proof -
  let ?ls = "saveSessions [(Text ''1'', a_session)] (Text ''1'') 5 empty_substrate"
  have "items ?ls KEY_sessions = Some (JSONText (JObj
         [(''version'', JNum 2),
          (''sessions'', JArr [JArr [JStr ''1'', JObj a_saved_session]]),
          (''activeSessionId'', JStr ''1''),
          (''timestamp'', JNum 5)]))"
    and "\<not> denied ?ls"
    by (simp_all add: saved_session) (simp add: empty_substrate_def)
  from loaded_session [OF this, of "\<lambda>v. Inr None"]
  have loaded: "loadSessions (\<lambda>v. Inr None) ?ls
     = (Some \<lparr>ls_sessions = [(JStr ''1'', a_saved_session)],
               ls_activeSessionId = Some (JStr ''1''), ls_timestamp = Some (JNum 5)\<rparr>, ?ls)" .
  have "selections (fst (SessionStore_restore (\<lambda>v. Inr None) new_SessionStore ?ls))
       = [(Text ''1'', [Text ''d1'', Text ''d2''], Undefined)]"
    unfolding SessionStore_restore_def loaded
    by (simp add: selections_def restore_session_def session_of_def new_SessionStore_def
          a_saved_session_def elements_def identify_value_def)
  with loaded show ?thesis
    by (simp add: a_session_def a_saved_session_def)
qed

lemma a_session_history_run:
  "session_run T (first_page_load empty_substrate) a_session_history
     = \<lparr>session_store = \<lparr>sessions = [(Text ''1'', a_session)], activeSessionId = Text ''1'',
                          parsed = 0\<rparr>,
        session_storage = saveSessions [(Text ''1'', a_session)] (Text ''1'') 4 empty_substrate\<rparr>"
  by (simp add: session_run_def first_page_load_def a_session_history_def createSession_def
        addDocumentToSession_def setActiveDocument_def new_SessionStore_def toString_1 Let_def
        a_session_def SessionStore_persist_def saveSessions_def saveSessions_body_def setItem_def
        empty_substrate_def JSON_stringify_def)

text \<open>
  C6. The claim: at every point reachable by the operations of the Session Store,
  \<^verbatim>\<open>restore\<close> among them, the active document of a session is \<^verbatim>\<open>null\<close> or one of the
  session's documents. The code: a page creates a session, adds the documents \<^verbatim>\<open>d1\<close>
  and \<^verbatim>\<open>d2\<close> and selects \<^verbatim>\<open>d1\<close> with \<^verbatim>\<open>setActiveDocument\<close>, which persists; the active
  document is \<^verbatim>\<open>d1\<close>, a member of the list. The page is loaded again and calls
  \<^verbatim>\<open>restore\<close>: the session has its two documents, and its \<^verbatim>\<open>activeDocumentId\<close> is
  \<^verbatim>\<open>undefined\<close>, which is neither \<^verbatim>\<open>null\<close> nor a member of the list. The selection is
  gone, because \<^verbatim>\<open>saveSessions\<close> never wrote it.
\<close>

theorem restore_forgets_the_active_document:
  "selections (session_store (session_run (\<lambda>v. Inr None) (first_page_load empty_substrate)
        a_session_history))
     = [(Text ''1'', [Text ''d1'', Text ''d2''], Text ''d1'')]
   \<and> selections (session_store (session_run (\<lambda>v. Inr None) (first_page_load empty_substrate)
        (a_session_history @ [ReloadPage, RestoreSessions])))
     = [(Text ''1'', [Text ''d1'', Text ''d2''], Undefined)]
   \<and> Undefined \<noteq> Null
   \<and> Undefined \<notin> set [Text ''d1'', Text ''d2'']"
proof -
  let ?ls = "saveSessions [(Text ''1'', a_session)] (Text ''1'') 4 empty_substrate"
  have "items ?ls KEY_sessions = Some (JSONText (JObj
         [(''version'', JNum 2),
          (''sessions'', JArr [JArr [JStr ''1'', JObj a_saved_session]]),
          (''activeSessionId'', JStr ''1''),
          (''timestamp'', JNum 4)]))"
    and "\<not> denied ?ls"
    by (simp_all add: saved_session) (simp add: empty_substrate_def)
  from loaded_session [OF this, of "\<lambda>v. Inr None"]
  have loaded: "loadSessions (\<lambda>v. Inr None) ?ls
     = (Some \<lparr>ls_sessions = [(JStr ''1'', a_saved_session)],
               ls_activeSessionId = Some (JStr ''1''), ls_timestamp = Some (JNum 4)\<rparr>, ?ls)" .
  have before: "selections (session_store (session_run (\<lambda>v. Inr None)
        (first_page_load empty_substrate) a_session_history))
     = [(Text ''1'', [Text ''d1'', Text ''d2''], Text ''d1'')]"
    by (simp add: a_session_history_run selections_def a_session_def)
  have "session_run (\<lambda>v. Inr None) (first_page_load empty_substrate)
        (a_session_history @ [ReloadPage, RestoreSessions])
     = session_step (\<lambda>v. Inr None) (session_step (\<lambda>v. Inr None)
         (session_run (\<lambda>v. Inr None) (first_page_load empty_substrate) a_session_history)
         ReloadPage) RestoreSessions"
    by (simp add: session_run_def)
  then have after: "selections (session_store (session_run (\<lambda>v. Inr None)
        (first_page_load empty_substrate) (a_session_history @ [ReloadPage, RestoreSessions])))
     = [(Text ''1'', [Text ''d1'', Text ''d2''], Undefined)]"
    by (simp add: a_session_history_run SessionStore_restore_def loaded selections_def
          restore_session_def session_of_def new_SessionStore_def a_saved_session_def
          elements_def identify_value_def)
  from before after show ?thesis by simp
qed

section \<open>What getMessages hands out\<close>






lemma seen_arrays [simp]:
  "seen (mem\<lparr>arrays := x, next_array := y\<rparr>) = seen mem"
  "seen (mem\<lparr>arrays := x\<rparr>) = seen mem"
  by (auto simp: seen_def fun_eq_iff split: element.splits)











lemma grown_refl [simp]: "grown mem mem"
  by (simp add: grown_def)























end
